theory Spec2Isabelle
  imports Complex_Main
begin

section \<open>AnalyticsMP: parameter normalisation and client identifier persistence\<close>

text \<open>
  A shallow embedding of \<^verbatim>\<open>src/AnalyticsMP.js\<close>, the file the README names as the
  library. The functions embedded are \<^verbatim>\<open>getAnalyticsClientId\<close>,
  \<^verbatim>\<open>AnalyticsMP_._addRequiredParameters\<close> and \<^verbatim>\<open>generateAnalyticsTrackingUrl\<close>.

  What the JavaScript does beyond returning a value is explicit here:
  \<^item> objects live in a heap and are passed by reference, so a write through one
    reference is seen through every alias;
  \<^item> the module-level cache \<^verbatim>\<open>AnalyticsMP_.clientId\<close>, the global
    \<^verbatim>\<open>ANALYTICS_TRACKING_ID\<close> and the property stores are fields of one state
    record, which every function takes and returns;
  \<^item> every call to the Properties service is appended to a trace;
  \<^item> \<^verbatim>\<open>throw\<close> is a value of the result type;
  \<^item> the two platform sources of fresh values, \<^verbatim>\<open>Utilities.getUuid()\<close> and
    \<^verbatim>\<open>Math.random()\<close>, are streams held in the state together with the number
    of values already drawn from each.

  \<^verbatim>\<open>sendAnalyticsEvent\<close> normalises with \<^verbatim>\<open>sentViaUrlFetch\<close> true and hands the result to
  the HTTP service; the request itself is outside this development.

  The repository also holds an earlier draft of the same file. It differs in three
  places that matter below: its \<^verbatim>\<open>_addRequiredParameters\<close> writes into the caller's
  object instead of a copy, its URL loop writes the key alone for every falsy value,
  and its \<^verbatim>\<open>getAnalyticsClientId\<close> stores the new identifier through a variable
  \<^verbatim>\<open>userProperties\<close> that is declared nowhere. The draft also refers to an undeclared
  \<^verbatim>\<open>generateAnalyticsTrackingImg\<close> while the script loads. What is embedded here is the
  published file.
\<close>

subsection \<open>JavaScript values\<close>

text \<open>
  Parameter values are the scalars of JSON, and \<^verbatim>\<open>undefined\<close>, which is also what
  reading a missing property yields. Numbers are the integer-valued ones (exact, and
  printed in decimal, up to \<open>2\<^sup>5\<^sup>3\<close> in magnitude); strings are lists of bytes (the
  UTF-8 encoding of the JavaScript string).
\<close>

datatype jsval = JUndefined | JNull | JBool bool | JNum int | JStr string

text \<open>ToBoolean: what \<^verbatim>\<open>if (x)\<close>, \<^verbatim>\<open>!x\<close> and \<^verbatim>\<open>x || y\<close> test.\<close>

fun truthy :: "jsval \<Rightarrow> bool" where
  "truthy JUndefined = False"
| "truthy JNull = False"
| "truthy (JBool b) = b"
| "truthy (JNum n) = (n \<noteq> 0)"
| "truthy (JStr s) = (s \<noteq> [])"

text \<open>\<^verbatim>\<open>a || b\<close>: the left operand when it is truthy, the right one otherwise.\<close>

definition js_or :: "jsval \<Rightarrow> jsval \<Rightarrow> jsval" where
  "js_or a b = (if truthy a then a else b)"

text \<open>Decimal digits of a number, as ToString prints an integer.\<close>

definition digit_char :: "nat \<Rightarrow> char" where
  "digit_char d = ''0123456789ABCDEF'' ! d"

fun nat_to_dec :: "nat \<Rightarrow> string" where
  "nat_to_dec n = (if n < 10 then [digit_char n] else nat_to_dec (n div 10) @ [digit_char (n mod 10)])"

declare nat_to_dec.simps [simp del]

definition int_to_dec :: "int \<Rightarrow> string" where
  "int_to_dec i = (if i < 0 then CHR ''-'' # nat_to_dec (nat (- i)) else nat_to_dec (nat i))"

fun ToString :: "jsval \<Rightarrow> string" where
  "ToString JUndefined = ''undefined''"
| "ToString JNull = ''null''"
| "ToString (JBool b) = (if b then ''true'' else ''false'')"
| "ToString (JNum n) = int_to_dec n"
| "ToString (JStr s) = s"

subsection \<open>Doubles\<close>

text \<open>
  \<^verbatim>\<open>Math.random()\<close>, the literal \<^verbatim>\<open>10E7\<close> and their product are IEEE 754 binary64
  numbers. A finite non-negative double is written here as a pair \<open>(m, e)\<close> that
  stands for \<open>m * 2\<^sup>e\<close>, with \<open>m < 2\<^sup>5\<^sup>3\<close> and \<open>-1074 \<le> e \<le> 971\<close>; several pairs may
  stand for one double.
\<close>

type_synonym double = "nat \<times> int"

definition double_val :: "double \<Rightarrow> real" where
  "double_val d = real (fst d) * 2 powi snd d"

definition is_double :: "double \<Rightarrow> bool" where
  "is_double d = (fst d < 2 ^ 53 \<and> - 1074 \<le> snd d \<and> snd d \<le> 971)"

text \<open>The number of binary digits of a natural number.\<close>

fun bitlen :: "nat \<Rightarrow> nat" where
  "bitlen n = (if n = 0 then 0 else Suc (bitlen (n div 2)))"

declare bitlen.simps [simp del]

text \<open>
  Dropping the \<open>s\<close> low binary digits of \<open>M\<close>, rounding to nearest and, halfway between
  two neighbours, to the even one.
\<close>

definition round_shift :: "nat \<Rightarrow> nat \<Rightarrow> nat" where
  "round_shift M s =
     (let q = M div 2 ^ s; r = M mod 2 ^ s
      in if 2 ^ s < 2 * r \<or> (2 * r = 2 ^ s \<and> odd q) then q + 1 else q)"

text \<open>
  The operator \<^verbatim>\<open>*\<close> on two such doubles: the exact product \<open>M * 2\<^sup>e\<close> rounded to 53
  binary digits, or to the digits above \<open>2\<close> to the \<open>-1074\<close> when the product is
  subnormal. When rounding carries into a 54th digit the pair has the mantissa
  \<open>2\<^sup>5\<^sup>3\<close> and stands for the double with mantissa \<open>2\<^sup>5\<^sup>2\<close> and the next exponent. A
  product beyond the finite range does not arise from a factor below 1 and
  \<^verbatim>\<open>10E7\<close>, and is not represented.
\<close>

definition double_mul :: "double \<Rightarrow> double \<Rightarrow> double" where
  "double_mul a b =
     (let M = fst a * fst b;
          e = snd a + snd b;
          s = max (if 53 < bitlen M then bitlen M - 53 else 0) (nat (- 1074 - e))
      in (round_shift M s, e + int s))"

text \<open>\<^verbatim>\<open>Math.floor\<close> of such a double, as the integer it is.\<close>

definition Math_floor :: "double \<Rightarrow> int" where
  "Math_floor d =
     (if 0 \<le> snd d then int (fst d) * 2 ^ nat (snd d) else int (fst d) div 2 ^ nat (- snd d))"

text \<open>The literal \<^verbatim>\<open>10E7\<close>, that is \<open>10 * 10\<^sup>7\<close>, which is a double.\<close>

definition ten_E7 :: double where
  "ten_E7 = (10 * 10 ^ 7, 0)"

subsection \<open>Objects and the heap\<close>

text \<open>
  An object is the list of its own properties in enumeration order, which for
  property names that are not array indices is insertion order. Assigning to an
  existing property keeps its place; assigning to a new one appends it.
\<close>

type_synonym obj = "(string \<times> jsval) list"

fun obj_get :: "obj \<Rightarrow> string \<Rightarrow> jsval" where
  "obj_get [] k = JUndefined"
| "obj_get ((k', v) # ps) k = (if k' = k then v else obj_get ps k)"

fun obj_set :: "string \<Rightarrow> jsval \<Rightarrow> obj \<Rightarrow> obj" where
  "obj_set k v [] = [(k, v)]"
| "obj_set k v ((k', v') # ps) = (if k' = k then (k, v) # ps else (k', v') # obj_set k v ps)"

definition obj_keys :: "obj \<Rightarrow> string list" where
  "obj_keys ps = map fst ps"

text \<open>
  \<^verbatim>\<open>JSON.parse(JSON.stringify(o))\<close> on an object of scalars: a property whose value is
  \<^verbatim>\<open>undefined\<close> is left out by \<^verbatim>\<open>JSON.stringify\<close>, every other property comes back
  with the same value, in the same order.
\<close>

definition json_roundtrip :: "obj \<Rightarrow> obj" where
  "json_roundtrip ps = filter (\<lambda>(k, v). v \<noteq> JUndefined) ps"

type_synonym ref = nat

subsection \<open>The state of a process and of its environment\<close>

datatype store_id = UserProperties | DocumentProperties | ScriptProperties

datatype access =
    GetUserProperties
  | GetProperty store_id string
  | SetProperty store_id string string

record world =
  heap :: "obj list"
  clientId :: jsval
  ANALYTICS_TRACKING_ID :: jsval
  stores :: "store_id \<Rightarrow> string \<Rightarrow> string option"
  trace :: "access list"
  uuid_src :: "nat \<Rightarrow> string"
  uuid_calls :: nat
  random_src :: "nat \<Rightarrow> double"
  random_calls :: nat

text \<open>
  \<^item> \<open>heap\<close>: the objects allocated so far; a reference is an index into it.
  \<^item> \<open>clientId\<close>: \<^verbatim>\<open>AnalyticsMP_.clientId\<close>, \<^verbatim>\<open>undefined\<close> when the script is loaded.
  \<^item> \<open>ANALYTICS_TRACKING_ID\<close>: the property of that name of the global object,
    \<^verbatim>\<open>undefined\<close> when the project does not declare it.
  \<^item> \<open>stores\<close>: the contents of the property stores, which outlive the process.
  \<^item> \<open>trace\<close>: the calls made to the Properties service, oldest first.
  \<^item> \<open>uuid_src\<close>, \<open>uuid_calls\<close>: the values \<^verbatim>\<open>Utilities.getUuid()\<close> returns, and how
    many have been taken.
  \<^item> \<open>random_src\<close>, \<open>random_calls\<close>: the same for \<^verbatim>\<open>Math.random()\<close>.
\<close>

datatype error = TRACKING_ID_REQUIRED

datatype 'a outcome = Threw error | Returned 'a

definition error_message :: "error \<Rightarrow> string" where
  "error_message e = (case e of TRACKING_ID_REQUIRED \<Rightarrow> ''A valid Google Analytics tracking ID is required'')"

subsubsection \<open>Heap operations\<close>

definition alloc :: "obj \<Rightarrow> world \<Rightarrow> ref \<times> world" where
  "alloc ob w = (length (heap w), w\<lparr>heap := heap w @ [ob]\<rparr>)"

definition getProp :: "ref \<Rightarrow> string \<Rightarrow> world \<Rightarrow> jsval" where
  "getProp r k w = obj_get (heap w ! r) k"

definition setProp :: "ref \<Rightarrow> string \<Rightarrow> jsval \<Rightarrow> world \<Rightarrow> world" where
  "setProp r k v w = w\<lparr>heap := (heap w)[r := obj_set k v (heap w ! r)]\<rparr>"

subsubsection \<open>Platform services\<close>

text \<open>\<^verbatim>\<open>store.getProperty(key)\<close>: the stored string, or \<^verbatim>\<open>null\<close>.\<close>

definition getProperty :: "store_id \<Rightarrow> string \<Rightarrow> world \<Rightarrow> jsval \<times> world" where
  "getProperty s k w =
     ((case stores w s k of None \<Rightarrow> JNull | Some v \<Rightarrow> JStr v),
      w\<lparr>trace := trace w @ [GetProperty s k]\<rparr>)"

definition setProperty :: "store_id \<Rightarrow> string \<Rightarrow> string \<Rightarrow> world \<Rightarrow> world" where
  "setProperty s k v w =
     w\<lparr>stores := (stores w)(s := (stores w s)(k \<mapsto> v)),
       trace := trace w @ [SetProperty s k v]\<rparr>"

definition getUserProperties :: "world \<Rightarrow> store_id \<times> world" where
  "getUserProperties w = (UserProperties, w\<lparr>trace := trace w @ [GetUserProperties]\<rparr>)"

definition getUuid :: "world \<Rightarrow> string \<times> world" where
  "getUuid w = (uuid_src w (uuid_calls w), w\<lparr>uuid_calls := Suc (uuid_calls w)\<rparr>)"

definition Math_random :: "world \<Rightarrow> double \<times> world" where
  "Math_random w = (random_src w (random_calls w), w\<lparr>random_calls := Suc (random_calls w)\<rparr>)"

subsection \<open>getAnalyticsClientId\<close>

text \<open>
  \<^verbatim>\<open>
  function getAnalyticsClientId(optPropertyStore) {
    if (AnalyticsMP_.clientId) return AnalyticsMP_.clientId;
    optPropertyStore = optPropertyStore || PropertiesService.getUserProperties();
    AnalyticsMP_.clientId = optPropertyStore.getProperty('clientId');
    if (!AnalyticsMP_.clientId) {
      AnalyticsMP_.clientId = Utilities.getUuid();
      optPropertyStore.setProperty('clientId', AnalyticsMP_.clientId);
    }
    return AnalyticsMP_.clientId;
  }
  \<close>
  The argument is a store or is omitted; a store is an object, hence truthy.
\<close>

definition getAnalyticsClientId :: "store_id option \<Rightarrow> world \<Rightarrow> jsval \<times> world" where
  "getAnalyticsClientId optPropertyStore w =
     (if truthy (clientId w) then (clientId w, w)
      else
        let (store, w1) = (case optPropertyStore of Some s \<Rightarrow> (s, w) | None \<Rightarrow> getUserProperties w);
            (v, w2) = getProperty store ''clientId'' w1;
            w3 = w2\<lparr>clientId := v\<rparr>
        in if \<not> truthy (clientId w3) then
             let (u, w4) = getUuid w3;
                 w5 = w4\<lparr>clientId := JStr u\<rparr>;
                 w6 = setProperty store ''clientId'' u w5
             in (clientId w6, w6)
           else (clientId w3, w3))"

subsection \<open>AnalyticsMP_._addRequiredParameters\<close>

text \<open>
  \<^verbatim>\<open>
  AnalyticsMP_._addRequiredParameters = function (parameters, optPropertyStore, sentViaUrlFetch) {
    var params = JSON.parse(JSON.stringify(parameters));
    if (!params['tid']) {
      if (!AnalyticsMP_._this['ANALYTICS_TRACKING_ID']) throw new Error(AnalyticsMP_.ERROR.TRACKING_ID_REQUIRED);
      params['tid'] = AnalyticsMP_._this['ANALYTICS_TRACKING_ID'];
    }
    params['cid'] = getAnalyticsClientId(optPropertyStore);
    params['t'] = params['t'] || 'event';
    params['t'] === 'event' && !params['el'] && (params['el'] = '');
    params['v'] = '1';
    params['z'] = Math.floor(Math.random() * 10E7);
    if (sentViaUrlFetch) {
      params['ds'] = params['ds'] || 'urlFetch';
      params['aip'] = '1';
    }
    return params;
  };
  \<close>
  \<open>parameters\<close> is a reference to the caller's object. The third argument is
  \<^verbatim>\<open>true\<close> in \<^verbatim>\<open>sendAnalyticsEvent\<close> and omitted (falsy) in
  \<^verbatim>\<open>generateAnalyticsTrackingUrl\<close>. The product of the random draw with \<^verbatim>\<open>10E7\<close> is
  the product of two doubles, rounded as the machine rounds it.
\<close>

definition addRequiredParameters ::
  "ref \<Rightarrow> store_id option \<Rightarrow> bool \<Rightarrow> world \<Rightarrow> ref outcome \<times> world" where
  "addRequiredParameters parameters optPropertyStore sentViaUrlFetch w =
     (let (params, w0) = alloc (json_roundtrip (heap w ! parameters)) w in
      if \<not> truthy (getProp params ''tid'' w0) \<and> \<not> truthy (ANALYTICS_TRACKING_ID w0)
      then (Threw TRACKING_ID_REQUIRED, w0)
      else
        let w1 = (if \<not> truthy (getProp params ''tid'' w0)
                  then setProp params ''tid'' (ANALYTICS_TRACKING_ID w0) w0 else w0);
            (cid, w2) = getAnalyticsClientId optPropertyStore w1;
            w3 = setProp params ''cid'' cid w2;
            w4 = setProp params ''t'' (js_or (getProp params ''t'' w3) (JStr ''event'')) w3;
            w5 = (if getProp params ''t'' w4 = JStr ''event'' \<and> \<not> truthy (getProp params ''el'' w4)
                  then setProp params ''el'' (JStr '''') w4 else w4);
            w6 = setProp params ''v'' (JStr ''1'') w5;
            (r, w7) = Math_random w6;
            w8 = setProp params ''z'' (JNum (Math_floor (double_mul r ten_E7))) w7;
            w9 = (if sentViaUrlFetch
                  then setProp params ''aip'' (JStr ''1'')
                         (setProp params ''ds'' (js_or (getProp params ''ds'' w8) (JStr ''urlFetch'')) w8)
                  else w8)
        in (Returned params, w9))"

subsection \<open>generateAnalyticsTrackingUrl\<close>

text \<open>
  \<^verbatim>\<open>encodeURI\<close> leaves letters, digits and
  \<^verbatim>\<open>; , / ? : @ & = + $ - _ . ! ~ * ' ( ) #\<close> as they are and writes every other byte
  of the UTF-8 encoding as \<^verbatim>\<open>%XX\<close> with upper-case hexadecimal digits.
\<close>

definition uri_unescaped :: "char \<Rightarrow> bool" where
  "uri_unescaped c =
     (c \<in> set ''abcdefghijklmnopqrstuvwxyz'' \<or> c \<in> set ''ABCDEFGHIJKLMNOPQRSTUVWXYZ'' \<or>
      c \<in> set ''0123456789'' \<or> c \<in> set '';,/?:@&=+$-_.!~*'()#'')"

definition percent_byte :: "char \<Rightarrow> string" where
  "percent_byte c = [CHR ''%'', digit_char (of_char c div 16), digit_char (of_char c mod 16)]"

definition encodeURI :: "string \<Rightarrow> string" where
  "encodeURI s = concat (map (\<lambda>c. if uri_unescaped c then [c] else percent_byte c) s)"

text \<open>\<^verbatim>\<open>Array.prototype.join\<close> on an array of strings.\<close>

fun join :: "string \<Rightarrow> string list \<Rightarrow> string" where
  "join sep [] = []"
| "join sep [x] = x"
| "join sep (x # y # ys) = x @ sep @ join sep (y # ys)"

text \<open>
  \<^verbatim>\<open>
  function generateAnalyticsTrackingUrl(parameters, optPropertyStore) {
    var params = AnalyticsMP_._addRequiredParameters(parameters, optPropertyStore);
    var urlParams = [];
    for (var key in params) {
      urlParams.push(key + (params[key] === '' ? '' : '=' + encodeURI(params[key])));
    }
    return 'https://www.google-analytics.com/collect?' + urlParams.join('&amp;');
  }
  \<close>
\<close>

definition urlParam :: "string \<times> jsval \<Rightarrow> string" where
  "urlParam p = (case p of (key, v) \<Rightarrow>
     key @ (if v = JStr '''' then '''' else ''='' @ encodeURI (ToString v)))"

definition generateAnalyticsTrackingUrl ::
  "ref \<Rightarrow> store_id option \<Rightarrow> world \<Rightarrow> string outcome \<times> world" where
  "generateAnalyticsTrackingUrl parameters optPropertyStore w =
     (case addRequiredParameters parameters optPropertyStore False w of
        (Threw e, w') \<Rightarrow> (Threw e, w')
      | (Returned params, w') \<Rightarrow>
          (Returned (''https://www.google-analytics.com/collect?'' @
                     join ''&amp;'' (map urlParam (heap w' ! params))), w'))"

subsection \<open>The contents of the normalised object\<close>

text \<open>
  The object \<^verbatim>\<open>params\<close> as \<^verbatim>\<open>_addRequiredParameters\<close> leaves it, written as a function
  of the clone it starts from, the global tracking ID, the client ID and the random
  draw: the same assignments in the same order, on the object itself instead of
  through the heap. Lemma \<open>addRequiredParameters_eq\<close> relates the two.
\<close>

definition fill_required :: "jsval \<Rightarrow> jsval \<Rightarrow> double \<Rightarrow> bool \<Rightarrow> obj \<Rightarrow> obj" where
  "fill_required tracking cid r sentViaUrlFetch o0 =
     (let o1 = (if \<not> truthy (obj_get o0 ''tid'') then obj_set ''tid'' tracking o0 else o0);
          o3 = obj_set ''cid'' cid o1;
          o4 = obj_set ''t'' (js_or (obj_get o3 ''t'') (JStr ''event'')) o3;
          o5 = (if obj_get o4 ''t'' = JStr ''event'' \<and> \<not> truthy (obj_get o4 ''el'')
                then obj_set ''el'' (JStr '''') o4 else o4);
          o6 = obj_set ''v'' (JStr ''1'') o5;
          o8 = obj_set ''z'' (JNum (Math_floor (double_mul r ten_E7))) o6
      in if sentViaUrlFetch
         then obj_set ''aip'' (JStr ''1'')
                (obj_set ''ds'' (js_or (obj_get o8 ''ds'') (JStr ''urlFetch'')) o8)
         else o8)"

text \<open>
  A reference is valid when it points into the heap and the object there has each
  property name once, as every JavaScript object does.
\<close>

definition valid_ref :: "ref \<Rightarrow> world \<Rightarrow> bool" where
  "valid_ref r w = (r < length (heap w) \<and> distinct (obj_keys (heap w ! r)))"

text \<open>\<^verbatim>\<open>delete o[k]\<close>: the object without the property \<open>k\<close>.\<close>

definition obj_delete :: "string \<Rightarrow> obj \<Rightarrow> obj" where
  "obj_delete k ps = filter (\<lambda>(k', v). k' \<noteq> k) ps"

text \<open>The same on the heap: the caller's object with one property deleted.\<close>

definition deleteProp :: "ref \<Rightarrow> string \<Rightarrow> world \<Rightarrow> world" where
  "deleteProp r k w = w\<lparr>heap := (heap w)[r := obj_delete k (heap w ! r)]\<rparr>"

subsection \<open>Observing a run\<close>

text \<open>Reads and writes of a property store, counted on the trace.\<close>

fun is_read :: "access \<Rightarrow> bool" where
  "is_read (GetProperty s k) = True"
| "is_read a = False"

fun is_write :: "access \<Rightarrow> bool" where
  "is_write (SetProperty s k v) = True"
| "is_write a = False"

definition store_reads :: "access list \<Rightarrow> nat" where
  "store_reads tr = length (filter is_read tr)"

definition store_writes :: "access list \<Rightarrow> nat" where
  "store_writes tr = length (filter is_write tr)"

text \<open>The store \<^verbatim>\<open>getAnalyticsClientId\<close> works on for a given argument.\<close>

definition resolve_store :: "store_id option \<Rightarrow> store_id" where
  "resolve_store optPropertyStore = (case optPropertyStore of Some s \<Rightarrow> s | None \<Rightarrow> UserProperties)"


text \<open>
  The textual form of a UUID: 36 characters, hexadecimal digits in groups of
  8, 4, 4, 4 and 12 separated by hyphens.
\<close>

definition is_hex_digit :: "char \<Rightarrow> bool" where
  "is_hex_digit c = (c \<in> set ''0123456789abcdefABCDEF'')"

definition uuid_shape :: "char \<Rightarrow> char" where
  "uuid_shape c = (if c = CHR ''-'' then CHR ''-'' else if is_hex_digit c then CHR ''x'' else CHR ''?'')"

definition is_uuid :: "string \<Rightarrow> bool" where
  "is_uuid s = (map uuid_shape s = ''xxxxxxxx-xxxx-xxxx-xxxx-xxxxxxxxxxxx'')"

subsection \<open>The serialisation as the specification words it\<close>

text \<open>
  The specification of the tracking URL: for each key in the set's order, the key
  alone if the value is empty or falsy, else the key, \<^verbatim>\<open>=\<close> and the percent-encoded
  value; all pairs joined with \<^verbatim>\<open>&\<close>, after the fixed endpoint and \<^verbatim>\<open>?\<close>.
\<close>

definition spec_urlParam :: "string \<times> jsval \<Rightarrow> string" where
  "spec_urlParam p = (case p of (key, v) \<Rightarrow>
     if \<not> truthy v then key else key @ ''='' @ encodeURI (ToString v))"

definition spec_tracking_url :: "obj \<Rightarrow> string" where
  "spec_tracking_url ps =
     ''https://www.google-analytics.com/collect'' @ ''?'' @ join ''&'' (map spec_urlParam ps)"

subsection \<open>Draws that reach a given cache buster\<close>

text \<open>
  The largest multiple of \<open>2\<close> to the \<open>-53\<close> that is at most \<open>(n + 1/2) / 10\<^sup>8\<close>: a draw
  whose product with \<^verbatim>\<open>10E7\<close> floors to \<open>n\<close> (lemma \<open>cache_buster_onto\<close>).
\<close>

definition draw_for :: "nat \<Rightarrow> double" where
  "draw_for n = (((2 * n + 1) * 2 ^ 52) div 10 ^ 8, - 53)"

subsection \<open>Example states\<close>

text \<open>
  A freshly loaded script whose project declares a tracking ID, with empty property
  stores; the caller's object, at reference 0, is \<^verbatim>\<open>{ec: 'Installed'}\<close>. Every call
  of \<^verbatim>\<open>Math.random()\<close> yields \<open>0.5\<close>, the pair \<open>(1, -1)\<close>.
\<close>

definition w_fresh :: world where
  "w_fresh =
     \<lparr>heap = [[(''ec'', JStr ''Installed'')]],
      clientId = JUndefined,
      ANALYTICS_TRACKING_ID = JStr ''UA-1-1'',
      stores = (\<lambda>s. Map.empty),
      trace = [],
      uuid_src = (\<lambda>n. ''123e4567-e89b-42d3-a456-426614174000''),
      uuid_calls = 0,
      random_src = (\<lambda>n. (1, - 1)),
      random_calls = 0\<rparr>"

text \<open>The same with no tracking ID declared.\<close>

definition w_unconfigured :: world where
  "w_unconfigured = w_fresh\<lparr>ANALYTICS_TRACKING_ID := JUndefined\<rparr>"

text \<open>
  A process whose client ID is already cached; the caller's object, at reference 0,
  is \<^verbatim>\<open>{tid: '', ni: 0}\<close>.
\<close>

definition w_cached :: world where
  "w_cached =
     \<lparr>heap = [[(''tid'', JStr ''''), (''ni'', JNum 0)]],
      clientId = JStr ''c1'',
      ANALYTICS_TRACKING_ID = JStr ''UA-1-1'',
      stores = (\<lambda>s. Map.empty),
      trace = [],
      uuid_src = (\<lambda>n. ''123e4567-e89b-42d3-a456-426614174000''),
      uuid_calls = 0,
      random_src = (\<lambda>n. (1, - 1)),
      random_calls = 0\<rparr>"

section \<open>Properties\<close>

subsection \<open>Doubles: rounding, and the product with 10E7\<close>

lemma bitlen_le: "n < 2 ^ j \<Longrightarrow> bitlen n \<le> j"
proof (induction j arbitrary: n)
  case 0
  then show ?case by (simp add: bitlen.simps)
next
  case (Suc j)
  have "n div 2 < 2 ^ j" using Suc.prems by simp
  then have "bitlen (n div 2) \<le> j" by (rule Suc.IH)
  then show ?case by (subst bitlen.simps) simp
qed

lemma round_shift_upper: "2 * (round_shift M s * 2 ^ s) \<le> 2 * M + 2 ^ s"
proof -
  define q where "q = M div 2 ^ s"
  define r where "r = M mod 2 ^ s"
  have M: "M = q * 2 ^ s + r"
    using div_mult_mod_eq[of M "2 ^ s"] by (simp add: q_def r_def)
  have r: "r < 2 ^ s" by (simp add: r_def)
  show ?thesis
  proof (cases "2 ^ s < 2 * r \<or> (2 * r = 2 ^ s \<and> odd q)")
    case True
    then have rs: "round_shift M s = q + 1"
      by (simp add: round_shift_def q_def r_def Let_def)
    have "2 ^ s \<le> 2 * r" using True by auto
    then have "2 * ((q + 1) * 2 ^ s) \<le> 2 * (q * 2 ^ s + r) + 2 ^ s"
      by (simp add: algebra_simps)
    then have "2 * ((q + 1) * 2 ^ s) \<le> 2 * M + 2 ^ s"
      by (simp only: M[symmetric])
    then show ?thesis by (simp only: rs)
  next
    case False
    then have rs: "round_shift M s = q"
      by (simp add: round_shift_def q_def r_def Let_def)
    have "2 * (q * 2 ^ s) \<le> 2 * (q * 2 ^ s + r) + 2 ^ s"
      by (simp add: algebra_simps)
    then have "2 * (q * 2 ^ s) \<le> 2 * M + 2 ^ s"
      by (simp only: M[symmetric])
    then show ?thesis by (simp only: rs)
  qed
qed

lemma round_shift_lower: "2 * M \<le> 2 * (round_shift M s * 2 ^ s) + 2 ^ s"
proof -
  define q where "q = M div 2 ^ s"
  define r where "r = M mod 2 ^ s"
  have M: "M = q * 2 ^ s + r"
    using div_mult_mod_eq[of M "2 ^ s"] by (simp add: q_def r_def)
  have r: "r < 2 ^ s" by (simp add: r_def)
  show ?thesis
  proof (cases "2 ^ s < 2 * r \<or> (2 * r = 2 ^ s \<and> odd q)")
    case True
    then have rs: "round_shift M s = q + 1"
      by (simp add: round_shift_def q_def r_def Let_def)
    have "2 * (q * 2 ^ s + r) \<le> 2 * ((q + 1) * 2 ^ s) + 2 ^ s"
      using r by (simp add: algebra_simps)
    then have "2 * M \<le> 2 * ((q + 1) * 2 ^ s) + 2 ^ s"
      by (simp only: M[symmetric])
    then show ?thesis by (simp only: rs)
  next
    case False
    then have rs: "round_shift M s = q"
      by (simp add: round_shift_def q_def r_def Let_def)
    have "2 * r \<le> 2 ^ s" using False by auto
    then have "2 * (q * 2 ^ s + r) \<le> 2 * (q * 2 ^ s) + 2 ^ s"
      by (simp add: algebra_simps)
    then have "2 * M \<le> 2 * (q * 2 ^ s) + 2 ^ s"
      by (simp only: M[symmetric])
    then show ?thesis by (simp only: rs)
  qed
qed

lemma Math_floor_val: "Math_floor d = \<lfloor>double_val d\<rfloor>"
proof (cases "0 \<le> snd d")
  case True
  then have "double_val d = of_int (int (fst d) * 2 ^ nat (snd d))"
    by (simp add: double_val_def power_int_def)
  then show ?thesis using True by (simp add: Math_floor_def del: of_int_mult of_int_power)
next
  case False
  then have "double_val d = real (fst d) / 2 ^ nat (- snd d)"
    by (simp add: double_val_def power_int_def field_simps)
  moreover have "\<lfloor>real (fst d) / 2 ^ nat (- snd d)\<rfloor> = int (fst d) div 2 ^ nat (- snd d)"
    using floor_divide_of_int_eq[of "int (fst d)" "2 ^ nat (- snd d)", where ?'a = real] by simp
  ultimately show ?thesis using False by (simp add: Math_floor_def)
qed

lemma below_one:
  assumes "double_val d < 1"
  shows "fst d = 0 \<or> (snd d < 0 \<and> fst d < 2 ^ nat (- snd d))"
proof (cases "0 \<le> snd d")
  case True
  have "1 \<le> (2::real) ^ nat (snd d)" by simp
  then have "real (fst d) \<le> real (fst d) * 2 ^ nat (snd d)"
    by (simp add: mult_le_cancel_left1)
  also have "\<dots> = double_val d" using True by (simp add: double_val_def power_int_def)
  finally have "real (fst d) < 1" using assms by simp
  then show ?thesis by simp
next
  case False
  define k where "k = nat (- snd d)"
  have "double_val d = real (fst d) / 2 ^ k"
    using False by (simp add: double_val_def power_int_def field_simps k_def)
  then have "real (fst d) / 2 ^ k < 1"
    using assms by simp
  then have "real (fst d) < 2 ^ k"
    by (simp add: divide_less_eq)
  then have "real (fst d) < real (2 ^ k)"
    by simp
  then have "fst d < 2 ^ k"
    by (simp only: of_nat_less_iff)
  then show ?thesis using False by (simp add: k_def)
qed

lemma bitlen_0: "bitlen 0 = 0"
  by (simp add: bitlen.simps)

text \<open>The product of a double with \<open>10E7\<close>, opened up.\<close>

lemma double_mul_ten_E7:
  assumes "is_double d"
    and M: "M = fst d * 10 ^ 8"
    and s: "s = (if 53 < bitlen M then bitlen M - 53 else 0)"
  shows "double_mul d ten_E7 = (round_shift M s, snd d + int s)" and "s \<le> 27"
proof -
  have e: "nat (- 1074 - snd d) = 0"
    using assms(1) by (simp add: is_double_def)
  show "double_mul d ten_E7 = (round_shift M s, snd d + int s)"
    by (simp add: double_mul_def ten_E7_def Let_def e M s)
  have "fst d < 2 ^ 53" using assms(1) by (simp add: is_double_def)
  then have "fst d * 10 ^ 8 < 2 ^ 53 * 2 ^ 27"
    by (intro mult_strict_mono) simp_all
  then have "M < 2 ^ 80"
    by (simp add: M)
  then have "bitlen M \<le> 80"
    by (rule bitlen_le)
  then show "s \<le> 27"
    unfolding s by arith
qed

lemma Math_floor_nat:
  "Math_floor (q, int s - int k) = int (if k \<le> s then q * 2 ^ (s - k) else q div 2 ^ (k - s))"
proof (cases "k \<le> s")
  case True
  then have "nat (int s - int k) = s - k" by simp
  then show ?thesis using True by (simp add: Math_floor_def)
next
  case False
  then have "nat (- (int s - int k)) = k - s" by simp
  then show ?thesis using False by (simp add: Math_floor_def zdiv_int)
qed

lemma floor_below:
  assumes "q * 2 ^ s < N * 2 ^ k"
  shows "(if k \<le> s then q * 2 ^ (s - k) else q div 2 ^ (k - s)) < (N::nat)"
proof (cases "k \<le> s")
  case True
  then have "(2::nat) ^ s = 2 ^ (s - k) * 2 ^ k"
    by (simp add: power_add[symmetric])
  then have "(q * 2 ^ (s - k)) * 2 ^ k < N * 2 ^ k"
    using assms by (simp add: mult.assoc)
  then show ?thesis using True by simp
next
  case False
  then have "(2::nat) ^ k = 2 ^ (k - s) * 2 ^ s"
    by (simp add: power_add[symmetric])
  then have "q * 2 ^ s < (N * 2 ^ (k - s)) * 2 ^ s"
    using assms by (simp add: mult.assoc)
  then have "q < N * 2 ^ (k - s)" by simp
  then have "q div 2 ^ (k - s) < N" by (rule less_mult_imp_div_less)
  then show ?thesis using False by simp
qed

lemma floor_exact:
  assumes "n * 2 ^ k \<le> q * 2 ^ s" and "q * 2 ^ s < Suc n * 2 ^ k" and "s < k"
  shows "q div 2 ^ (k - s) = (n::nat)"
proof -
  have p: "(2::nat) ^ k = 2 ^ (k - s) * 2 ^ s"
    using assms(3) by (simp add: power_add[symmetric])
  have "(n * 2 ^ (k - s)) * 2 ^ s \<le> q * 2 ^ s"
    using assms(1) by (simp add: p mult.assoc)
  then have lo: "2 ^ (k - s) * n \<le> q" by (simp add: mult.commute)
  have "q * 2 ^ s < (Suc n * 2 ^ (k - s)) * 2 ^ s"
    using assms(2) by (simp only: p mult.assoc)
  then have hi: "q < 2 ^ (k - s) * Suc n" by (simp add: mult.commute)
  show ?thesis using lo hi by (rule div_nat_eqI)
qed

lemma cache_buster_below:
  assumes "is_double d" and "double_val d < 1"
  shows "0 \<le> Math_floor (double_mul d ten_E7)" and "Math_floor (double_mul d ten_E7) < 10 ^ 8"
proof -
  define M where "M = fst d * 10 ^ 8"
  define s where "s = (if 53 < bitlen M then bitlen M - 53 else 0)"
  define q where "q = round_shift M s"
  have dm: "double_mul d ten_E7 = (q, snd d + int s)"
    unfolding q_def by (rule double_mul_ten_E7(1)[OF assms(1) M_def s_def])
  have s27: "s \<le> 27"
    by (rule double_mul_ten_E7(2)[OF assms(1) M_def s_def])
  show "0 \<le> Math_floor (double_mul d ten_E7)"
    by (simp add: dm Math_floor_def pos_imp_zdiv_nonneg_iff)
  from below_one[OF assms(2)] consider (zero) "fst d = 0" | (frac) "snd d < 0" "fst d < 2 ^ nat (- snd d)"
    by auto
  then show "Math_floor (double_mul d ten_E7) < 10 ^ 8"
  proof cases
    case zero
    then have "M = 0" by (simp add: M_def)
    then have "q = 0" by (simp add: q_def s_def bitlen_0 round_shift_def)
    then show ?thesis by (simp add: dm Math_floor_def)
  next
    case frac
    define k where "k = nat (- snd d)"
    have e: "snd d = - int k" using frac(1) by (simp add: k_def)
    have m: "Suc (fst d) \<le> 2 ^ k" using frac(2) by (simp add: k_def)
    have "Suc (fst d) * 10 ^ 8 \<le> 2 ^ k * 10 ^ 8"
      using m by (rule mult_le_mono1)
    then have M: "M + 10 ^ 8 \<le> 10 ^ 8 * 2 ^ k"
      by (simp add: M_def algebra_simps)
    have "(2::nat) ^ s \<le> 2 ^ 27" using s27 by (intro power_increasing) simp_all
    then have p: "(2::nat) ^ s < 2 * 10 ^ 8" by simp
    have "2 * (q * 2 ^ s) \<le> 2 * M + 2 ^ s"
      unfolding q_def by (rule round_shift_upper)
    then have "2 * (q * 2 ^ s) < 2 * (10 ^ 8 * 2 ^ k)"
      using M p by linarith
    then have "q * 2 ^ s < 10 ^ 8 * 2 ^ k" by simp
    then have "(if k \<le> s then q * 2 ^ (s - k) else q div 2 ^ (k - s)) < 10 ^ 8"
      by (rule floor_below)
    then have "int (if k \<le> s then q * 2 ^ (s - k) else q div 2 ^ (k - s)) < 10 ^ 8"
      by (metis of_nat_less_iff of_nat_numeral of_nat_power)
    moreover have "Math_floor (double_mul d ten_E7) =
        int (if k \<le> s then q * 2 ^ (s - k) else q div 2 ^ (k - s))"
      using Math_floor_nat[of q s k] by (simp add: dm e)
    ultimately show ?thesis by simp
  qed
qed

lemma cache_buster_onto:
  assumes "n < 10 ^ 8"
  shows "is_double (draw_for n)" and "double_val (draw_for n) < 1"
    and "Math_floor (double_mul (draw_for n) ten_E7) = int n"
proof -
  define m where "m = ((2 * n + 1) * 2 ^ 52) div 10 ^ 8"
  have d: "draw_for n = (m, - 53)" by (simp add: draw_for_def m_def)
  have "(2 * n + 1) * 2 ^ 52 < (2 * 10 ^ 8) * 2 ^ 52"
    using assms by (intro mult_strict_right_mono) simp_all
  then have "(2 * n + 1) * 2 ^ 52 < 2 ^ 53 * 10 ^ 8" by simp
  then have m53: "m < 2 ^ 53"
    unfolding m_def by (rule less_mult_imp_div_less)
  show dbl: "is_double (draw_for n)"
    using m53 by (simp add: d is_double_def)
  have "double_val (draw_for n) = real m / 2 ^ 53"
    by (simp add: d double_val_def power_int_def field_simps)
  moreover have "real m < 2 ^ 53"
    using m53 by (metis of_nat_less_iff of_nat_numeral of_nat_power)
  ultimately show "double_val (draw_for n) < 1"
    by (simp add: divide_less_eq)
  define M where "M = fst (draw_for n) * 10 ^ 8"
  define s where "s = (if 53 < bitlen M then bitlen M - 53 else 0)"
  define q where "q = round_shift M s"
  have dm: "double_mul (draw_for n) ten_E7 = (q, snd (draw_for n) + int s)"
    unfolding q_def by (rule double_mul_ten_E7(1)[OF dbl M_def s_def])
  have s27: "s \<le> 27"
    by (rule double_mul_ten_E7(2)[OF dbl M_def s_def])
  have Mm: "M = m * 10 ^ 8" by (simp add: M_def d)
  have "m * 10 ^ 8 + (2 * n + 1) * 2 ^ 52 mod 10 ^ 8 = (2 * n + 1) * 2 ^ 52"
    unfolding m_def by (rule div_mult_mod_eq)
  moreover have "(2 * n + 1) * 2 ^ 52 mod 10 ^ 8 < (10 ^ 8 :: nat)"
    by (rule mod_less_divisor) simp
  ultimately have Mhi: "M \<le> (2 * n + 1) * 2 ^ 52" and Mlo: "(2 * n + 1) * 2 ^ 52 < M + 10 ^ 8"
    unfolding Mm by linarith+
  have "(2::nat) ^ s \<le> 2 ^ 27" using s27 by (intro power_increasing) simp_all
  then have p: "(2::nat) ^ s \<le> 134217728" by simp
  have up: "2 * (q * 2 ^ s) \<le> 2 * M + 2 ^ s"
    unfolding q_def by (rule round_shift_upper)
  have low: "2 * M \<le> 2 * (q * 2 ^ s) + 2 ^ s"
    unfolding q_def by (rule round_shift_lower)
  have e52: "(2::nat) ^ 53 = 2 * 2 ^ 52" by simp
  define P where "P = (2::nat) ^ 52"
  have Pv: "4503599627370496 = P" by (simp add: P_def)
  have Mhi': "M \<le> (2 * n + 1) * P" and Mlo': "(2 * n + 1) * P < M + 100000000"
    using Mhi Mlo by (simp_all add: P_def)
  have "2 * (n * (2 * P)) \<le> 2 * (q * 2 ^ s)"
    using Mlo' low p Pv by (simp add: algebra_simps)
  then have lo: "n * 2 ^ 53 \<le> q * 2 ^ s"
    by (simp add: e52 P_def)
  have "2 * (q * 2 ^ s) < 2 * (Suc n * (2 * P))"
    using Mhi' up p Pv by (simp add: algebra_simps)
  then have hi: "q * 2 ^ s < Suc n * 2 ^ 53"
    by (simp add: e52 P_def)
  have "q div 2 ^ (53 - s) = n"
    using lo hi by (rule floor_exact) (use s27 in simp)
  moreover have "Math_floor (q, int s - int 53) = int (q div 2 ^ (53 - s))"
    using Math_floor_nat[of q s 53] s27 by simp
  ultimately show "Math_floor (double_mul (draw_for n) ten_E7) = int n"
    unfolding dm by (simp add: d)
qed

lemma bitlen_100000000: "bitlen 100000000 = 27"
  by (simp add: bitlen.simps)

lemma bitlen_07: "bitlen 630503947831869400000000 = 80"
  by (simp add: bitlen.simps)

lemma mul_half: "double_mul (1, - 1) ten_E7 = (100000000, - 1)"
  by (simp add: double_mul_def ten_E7_def Let_def bitlen_100000000 round_shift_def)

lemma z_half: "Math_floor (double_mul (1, - 1) ten_E7) = 50000000"
  unfolding mul_half by (simp add: Math_floor_def)

lemma z_half_Suc: "Math_floor (double_mul (Suc 0, - 1) ten_E7) = 50000000"
  using z_half by simp

lemma mul_07: "double_mul (6305039478318694, - 53) ten_E7 = (4697620480000000, - 26)"
  by (simp add: double_mul_def ten_E7_def Let_def bitlen_07 round_shift_def)

lemma z_07: "Math_floor (double_mul (6305039478318694, - 53) ten_E7) = 70000000"
  unfolding mul_07 by (simp add: Math_floor_def)

subsection \<open>Objects\<close>

lemma obj_get_obj_set: "obj_get (obj_set k v ps) k' = (if k' = k then v else obj_get ps k')"
  by (induction ps) auto

lemma keys_obj_set: "set (obj_keys (obj_set k v ps)) = insert k (set (obj_keys ps))"
proof (induction ps)
  case Nil
  show ?case by (simp add: obj_keys_def)
next
  case (Cons a ps)
  obtain k' v' where a: "a = (k', v')" by (cases a)
  show ?case using Cons a by (cases "k' = k") (simp_all add: obj_keys_def insert_commute)
qed

lemma distinct_obj_set: "distinct (obj_keys ps) \<Longrightarrow> distinct (obj_keys (obj_set k v ps))"
  using keys_obj_set[of k v] by (induction ps) (auto simp: obj_keys_def)

lemma obj_get_undefined: "k \<notin> set (obj_keys ps) \<Longrightarrow> obj_get ps k = JUndefined"
  by (induction ps) (auto simp: obj_keys_def)

lemma keys_json_roundtrip: "set (obj_keys (json_roundtrip ps)) \<subseteq> set (obj_keys ps)"
  by (auto simp: obj_keys_def json_roundtrip_def)

lemma distinct_json_roundtrip: "distinct (obj_keys ps) \<Longrightarrow> distinct (obj_keys (json_roundtrip ps))"
  by (simp add: obj_keys_def json_roundtrip_def distinct_map_filter)

lemma obj_get_json_roundtrip:
  "distinct (obj_keys ps) \<Longrightarrow> obj_get (json_roundtrip ps) k = obj_get ps k"
proof (induction ps)
  case Nil
  then show ?case by (simp add: json_roundtrip_def)
next
  case (Cons a ps)
  obtain k' v where a: "a = (k', v)" by (cases a)
  from Cons.prems a have nin: "k' \<notin> set (obj_keys ps)" and d: "distinct (obj_keys ps)"
    by (simp_all add: obj_keys_def)
  have ih: "obj_get (json_roundtrip ps) k = obj_get ps k" using Cons.IH d by simp
  show ?case
  proof (cases "v = JUndefined")
    case True
    then show ?thesis using a ih nin obj_get_undefined[of k' ps]
      by (auto simp: json_roundtrip_def)
  next
    case False
    then show ?thesis using a ih by (auto simp: json_roundtrip_def)
  qed
qed

subsection \<open>The heap\<close>

lemma setProp_last:
  "setProp (length h) k v (w\<lparr>heap := h @ [ob]\<rparr>) = w\<lparr>heap := h @ [obj_set k v ob]\<rparr>"
  by (simp add: setProp_def)

lemma getProp_last: "getProp (length h) k (w\<lparr>heap := h @ [ob]\<rparr>) = obj_get ob k"
  by (simp add: getProp_def)

lemma if_heap_last:
  "(if c then w\<lparr>heap := h @ [a]\<rparr> else w\<lparr>heap := h @ [b]\<rparr>) =
     w\<lparr>heap := h @ [if c then a else b]\<rparr>"
  by simp

lemma Math_random_heap_update:
  "Math_random (w\<lparr>heap := h\<rparr>) =
     (random_src w (random_calls w), (w\<lparr>random_calls := Suc (random_calls w)\<rparr>)\<lparr>heap := h\<rparr>)"
  by (simp add: Math_random_def)

subsection \<open>What getAnalyticsClientId leaves alone\<close>

lemmas gaci_defs = getAnalyticsClientId_def getUserProperties_def getProperty_def getUuid_def
  setProperty_def Let_def split_def

lemma getAnalyticsClientId_heap_update:
  "getAnalyticsClientId s (w\<lparr>heap := h\<rparr>) =
     (fst (getAnalyticsClientId s w), (snd (getAnalyticsClientId s w))\<lparr>heap := h\<rparr>)"
  by (cases s) (simp_all add: gaci_defs)

lemma getAnalyticsClientId_heap [simp]: "heap (snd (getAnalyticsClientId s w)) = heap w"
  by (cases s) (simp_all add: gaci_defs)

lemma getAnalyticsClientId_tracking [simp]:
  "ANALYTICS_TRACKING_ID (snd (getAnalyticsClientId s w)) = ANALYTICS_TRACKING_ID w"
  by (cases s) (simp_all add: gaci_defs)

lemma getAnalyticsClientId_random_src [simp]:
  "random_src (snd (getAnalyticsClientId s w)) = random_src w"
  by (cases s) (simp_all add: gaci_defs)

lemma getAnalyticsClientId_random_calls [simp]:
  "random_calls (snd (getAnalyticsClientId s w)) = random_calls w"
  by (cases s) (simp_all add: gaci_defs)

lemma getAnalyticsClientId_uuid_src [simp]:
  "uuid_src (snd (getAnalyticsClientId s w)) = uuid_src w"
  by (cases s) (simp_all add: gaci_defs)

text \<open>With a truthy cache the call returns it and touches nothing.\<close>

lemma getAnalyticsClientId_cached:
  "truthy (clientId w) \<Longrightarrow> getAnalyticsClientId s w = (clientId w, w)"
  by (simp add: getAnalyticsClientId_def)

subsection \<open>The two outcomes of normalisation\<close>

lemma addRequiredParameters_Threw:
  assumes "\<not> truthy (obj_get (json_roundtrip (heap w ! p)) ''tid'')"
    and "\<not> truthy (ANALYTICS_TRACKING_ID w)"
  shows "addRequiredParameters p s b w =
          (Threw TRACKING_ID_REQUIRED, w\<lparr>heap := heap w @ [json_roundtrip (heap w ! p)]\<rparr>)"
  using assms by (simp add: addRequiredParameters_def alloc_def getProp_last)

lemma addRequiredParameters_Returned:
  assumes "truthy (obj_get (json_roundtrip (heap w ! p)) ''tid'') \<or> truthy (ANALYTICS_TRACKING_ID w)"
  shows "addRequiredParameters p s b w =
      (Returned (length (heap w)),
       (snd (getAnalyticsClientId s w))
         \<lparr>heap := heap w @ [fill_required (ANALYTICS_TRACKING_ID w) (fst (getAnalyticsClientId s w))
                              (random_src w (random_calls w)) b (json_roundtrip (heap w ! p))],
          random_calls := Suc (random_calls w)\<rparr>)"
proof -
  define o0 where "o0 = json_roundtrip (heap w ! p)"
  define g where "g = getAnalyticsClientId s w"
  have g: "getAnalyticsClientId s (w\<lparr>heap := h\<rparr>) = (fst g, (snd g)\<lparr>heap := h\<rparr>)" for h
    by (simp add: g_def getAnalyticsClientId_heap_update)
  have c: "\<not> (\<not> truthy (obj_get o0 ''tid'') \<and> \<not> truthy (ANALYTICS_TRACKING_ID w))"
    using assms by (simp add: o0_def)
  have t: "ANALYTICS_TRACKING_ID (w\<lparr>heap := h\<rparr>) = ANALYTICS_TRACKING_ID w" for h
    by simp
  have "addRequiredParameters p s b w =
      (Returned (length (heap w)),
       ((snd g)\<lparr>random_calls := Suc (random_calls (snd g))\<rparr>)
         \<lparr>heap := heap w @ [fill_required (ANALYTICS_TRACKING_ID w) (fst g)
                              (random_src (snd g) (random_calls (snd g))) b o0]\<rparr>)"
    unfolding addRequiredParameters_def fill_required_def alloc_def o0_def[symmetric]
    by (simp only: split_conv Let_def getProp_last setProp_last t c if_False if_heap_last g
        Math_random_heap_update)
  then show ?thesis
    by (simp add: g_def o0_def)
qed

text \<open>Which of the two happens is decided by the two truthiness tests alone.\<close>

lemma addRequiredParameters_fst:
  "fst (addRequiredParameters p s b w) =
     (if \<not> truthy (obj_get (json_roundtrip (heap w ! p)) ''tid'') \<and> \<not> truthy (ANALYTICS_TRACKING_ID w)
      then Threw TRACKING_ID_REQUIRED else Returned (length (heap w)))"
  using addRequiredParameters_Threw[of w p s b] addRequiredParameters_Returned[of w p s b]
  by (cases "truthy (obj_get (json_roundtrip (heap w ! p)) ''tid'')";
      cases "truthy (ANALYTICS_TRACKING_ID w)") simp_all

subsection \<open>The normalised object, property by property\<close>

lemma fill_tid:
  "obj_get (fill_required tr cid r b o0) ''tid'' =
     (if truthy (obj_get o0 ''tid'') then obj_get o0 ''tid'' else tr)"
  by (simp add: fill_required_def Let_def obj_get_obj_set)

lemma fill_cid: "obj_get (fill_required tr cid r b o0) ''cid'' = cid"
  by (simp add: fill_required_def Let_def obj_get_obj_set)

lemma fill_t:
  "obj_get (fill_required tr cid r b o0) ''t'' = js_or (obj_get o0 ''t'') (JStr ''event'')"
  by (simp add: fill_required_def Let_def obj_get_obj_set)

lemma fill_el:
  "obj_get (fill_required tr cid r b o0) ''el'' =
     (if js_or (obj_get o0 ''t'') (JStr ''event'') = JStr ''event'' \<and> \<not> truthy (obj_get o0 ''el'')
      then JStr '''' else obj_get o0 ''el'')"
  by (auto simp: fill_required_def Let_def obj_get_obj_set)

lemma fill_v: "obj_get (fill_required tr cid r b o0) ''v'' = JStr ''1''"
  by (simp add: fill_required_def Let_def obj_get_obj_set)

lemma fill_z: "obj_get (fill_required tr cid r b o0) ''z'' = JNum (Math_floor (double_mul r ten_E7))"
  by (simp add: fill_required_def Let_def obj_get_obj_set)

lemma fill_ds:
  "obj_get (fill_required tr cid r b o0) ''ds'' =
     (if b then js_or (obj_get o0 ''ds'') (JStr ''urlFetch'') else obj_get o0 ''ds'')"
  by (simp add: fill_required_def Let_def obj_get_obj_set)

lemma fill_aip:
  "obj_get (fill_required tr cid r b o0) ''aip'' = (if b then JStr ''1'' else obj_get o0 ''aip'')"
  by (simp add: fill_required_def Let_def obj_get_obj_set)

lemma fill_other:
  "k \<notin> {''tid'', ''cid'', ''t'', ''el'', ''v'', ''z'', ''ds'', ''aip''} \<Longrightarrow>
     obj_get (fill_required tr cid r b o0) k = obj_get o0 k"
  by (simp add: fill_required_def Let_def obj_get_obj_set)

lemma mem_keys_obj_set:
  "k \<in> set (obj_keys (obj_set k' v ps)) \<longleftrightarrow> k = k' \<or> k \<in> set (obj_keys ps)"
  by (simp add: keys_obj_set)

lemma fill_keys:
  "k \<in> set (obj_keys (fill_required tr cid r b o0)) \<longleftrightarrow>
     k \<in> set (obj_keys o0) \<or> (k = ''tid'' \<and> \<not> truthy (obj_get o0 ''tid'')) \<or>
     k = ''cid'' \<or> k = ''t'' \<or> k = ''v'' \<or> k = ''z'' \<or>
     (k = ''el'' \<and> js_or (obj_get o0 ''t'') (JStr ''event'') = JStr ''event'' \<and> \<not> truthy (obj_get o0 ''el'')) \<or>
     (b \<and> (k = ''ds'' \<or> k = ''aip''))"
proof -
  define o1 where "o1 = (if \<not> truthy (obj_get o0 ''tid'') then obj_set ''tid'' tr o0 else o0)"
  define o4 where "o4 = obj_set ''t'' (js_or (obj_get (obj_set ''cid'' cid o1) ''t'') (JStr ''event'')) (obj_set ''cid'' cid o1)"
  define o5 where "o5 = (if obj_get o4 ''t'' = JStr ''event'' \<and> \<not> truthy (obj_get o4 ''el'')
                then obj_set ''el'' (JStr '''') o4 else o4)"
  define o8 where "o8 = obj_set ''z'' (JNum (Math_floor (double_mul r ten_E7))) (obj_set ''v'' (JStr ''1'') o5)"
  have r: "fill_required tr cid r b o0 =
      (if b then obj_set ''aip'' (JStr ''1'') (obj_set ''ds'' (js_or (obj_get o8 ''ds'') (JStr ''urlFetch'')) o8) else o8)"
    by (simp add: fill_required_def Let_def o1_def o4_def o5_def o8_def)
  have k1: "k \<in> set (obj_keys o1) \<longleftrightarrow> k \<in> set (obj_keys o0) \<or> (k = ''tid'' \<and> \<not> truthy (obj_get o0 ''tid''))"
    by (cases "truthy (obj_get o0 ''tid'')") (auto simp: o1_def mem_keys_obj_set)
  have k4: "k \<in> set (obj_keys o4) \<longleftrightarrow> k = ''t'' \<or> k = ''cid'' \<or> k \<in> set (obj_keys o1)"
    by (simp add: o4_def mem_keys_obj_set)
  have t4: "obj_get o4 ''t'' = js_or (obj_get o0 ''t'') (JStr ''event'')"
    by (simp add: o4_def o1_def obj_get_obj_set)
  have e4: "obj_get o4 ''el'' = obj_get o0 ''el''"
    by (simp add: o4_def o1_def obj_get_obj_set)
  define C where "C \<longleftrightarrow> js_or (obj_get o0 ''t'') (JStr ''event'') = JStr ''event'' \<and> \<not> truthy (obj_get o0 ''el'')"
  have k5: "k \<in> set (obj_keys o5) \<longleftrightarrow> (k = ''el'' \<and> C) \<or> k \<in> set (obj_keys o4)"
    unfolding o5_def t4 e4 C_def[symmetric] by (cases C) (simp_all add: mem_keys_obj_set)
  have k8: "k \<in> set (obj_keys o8) \<longleftrightarrow> k = ''z'' \<or> k = ''v'' \<or> k \<in> set (obj_keys o5)"
    by (simp add: o8_def mem_keys_obj_set)
  have k9: "k \<in> set (obj_keys (fill_required tr cid r b o0)) \<longleftrightarrow>
     (b \<and> (k = ''aip'' \<or> k = ''ds'')) \<or> k \<in> set (obj_keys o8)"
    unfolding r by (cases b) (simp_all add: mem_keys_obj_set)
  show ?thesis
    unfolding k9 k8 k5 k4 k1 C_def by auto
qed

subsection \<open>Claims about normalisation\<close>

lemma addRequiredParameters_result:
  assumes "fst (addRequiredParameters p s b w) = Returned r"
  shows "r = length (heap w)"
    and "heap (snd (addRequiredParameters p s b w)) ! r =
           fill_required (ANALYTICS_TRACKING_ID w) (fst (getAnalyticsClientId s w))
             (random_src w (random_calls w)) b (json_roundtrip (heap w ! p))"
    and "truthy (obj_get (json_roundtrip (heap w ! p)) ''tid'') \<or> truthy (ANALYTICS_TRACKING_ID w)"
proof -
  show c: "truthy (obj_get (json_roundtrip (heap w ! p)) ''tid'') \<or> truthy (ANALYTICS_TRACKING_ID w)"
    using assms by (auto simp: addRequiredParameters_fst split: if_splits)
  show r: "r = length (heap w)"
    using assms by (auto simp: addRequiredParameters_fst split: if_splits)
  show "heap (snd (addRequiredParameters p s b w)) ! r =
           fill_required (ANALYTICS_TRACKING_ID w) (fst (getAnalyticsClientId s w))
             (random_src w (random_calls w)) b (json_roundtrip (heap w ! p))"
    unfolding r by (simp add: addRequiredParameters_Returned[OF c])
qed

lemma addRequiredParameters_heap_prefix:
  "take (length (heap w)) (heap (snd (addRequiredParameters p s b w))) = heap w"
proof (cases "truthy (obj_get (json_roundtrip (heap w ! p)) ''tid'') \<or> truthy (ANALYTICS_TRACKING_ID w)")
  case True
  show ?thesis by (simp add: addRequiredParameters_Returned[OF True])
next
  case False
  then show ?thesis by (simp add: addRequiredParameters_Threw)
qed

text \<open>The object returned is again one with each property name once.\<close>

lemma fill_required_distinct:
  "distinct (obj_keys o0) \<Longrightarrow> distinct (obj_keys (fill_required tr cid r b o0))"
  by (simp add: fill_required_def Let_def distinct_obj_set)

lemma addRequiredParameters_valid_result:
  assumes "valid_ref p w" and "fst (addRequiredParameters p s b w) = Returned r"
  shows "valid_ref r (snd (addRequiredParameters p s b w))"
proof -
  have d: "distinct (obj_keys (json_roundtrip (heap w ! p)))"
    using assms(1) by (simp add: valid_ref_def distinct_json_roundtrip)
  have c: "truthy (obj_get (json_roundtrip (heap w ! p)) ''tid'') \<or> truthy (ANALYTICS_TRACKING_ID w)"
    by (rule addRequiredParameters_result(3)[OF assms(2)])
  have r: "r = length (heap w)"
    by (rule addRequiredParameters_result(1)[OF assms(2)])
  show ?thesis
    unfolding valid_ref_def addRequiredParameters_result(2)[OF assms(2)]
    using fill_required_distinct[OF d] by (simp add: r addRequiredParameters_Returned[OF c])
qed

text \<open>
  \<^bold>\<open>C1.\<close> When the caller's object has no \<^verbatim>\<open>tid\<close> key and the global tracking ID is
  unset, \<^verbatim>\<open>_addRequiredParameters\<close> throws the tracking-ID-required error and no call
  to the Properties service is made: the trace, the number of store reads, the number
  of store writes, the stores and the cached client ID are as before the call. The
  error is the only one the function throws, and it throws it only when both the
  \<^verbatim>\<open>tid\<close> of the clone and the global tracking ID are falsy.
\<close>

theorem tracking_id_required_before_store_access:
  assumes "''tid'' \<notin> set (obj_keys (heap w ! p))"
    and "ANALYTICS_TRACKING_ID w = JUndefined"
  shows "fst (addRequiredParameters p s b w) = Threw TRACKING_ID_REQUIRED \<and>
         trace (snd (addRequiredParameters p s b w)) = trace w \<and>
         store_reads (trace (snd (addRequiredParameters p s b w))) = store_reads (trace w) \<and>
         store_writes (trace (snd (addRequiredParameters p s b w))) = store_writes (trace w) \<and>
         stores (snd (addRequiredParameters p s b w)) = stores w \<and>
         clientId (snd (addRequiredParameters p s b w)) = clientId w \<and>
         (\<forall>p' s' b' w' e. fst (addRequiredParameters p' s' b' w') = Threw e \<longrightarrow>
            e = TRACKING_ID_REQUIRED \<and>
            \<not> truthy (obj_get (json_roundtrip (heap w' ! p')) ''tid'') \<and>
            \<not> truthy (ANALYTICS_TRACKING_ID w'))"
proof -
  have "''tid'' \<notin> set (obj_keys (json_roundtrip (heap w ! p)))"
    using assms(1) keys_json_roundtrip by blast
  then have a: "\<not> truthy (obj_get (json_roundtrip (heap w ! p)) ''tid'')"
    by (simp add: obj_get_undefined)
  have b: "\<not> truthy (ANALYTICS_TRACKING_ID w)"
    using assms(2) by simp
  have only: "e = TRACKING_ID_REQUIRED \<and>
            \<not> truthy (obj_get (json_roundtrip (heap w' ! p')) ''tid'') \<and>
            \<not> truthy (ANALYTICS_TRACKING_ID w')"
    if "fst (addRequiredParameters p' s' b' w') = Threw e" for p' s' b' w' e
    using that by (cases e) (simp add: addRequiredParameters_fst split: if_splits)
  show ?thesis
    using only by (simp add: addRequiredParameters_Threw[OF a b])
qed

theorem tracking_id_required_witness:
  "''tid'' \<notin> set (obj_keys (heap w_unconfigured ! 0)) \<and>
   ANALYTICS_TRACKING_ID w_unconfigured = JUndefined \<and>
   fst (addRequiredParameters 0 None True w_unconfigured) = Threw TRACKING_ID_REQUIRED \<and>
   trace (snd (addRequiredParameters 0 None True w_unconfigured)) = []"
proof -
  have h1: "''tid'' \<notin> set (obj_keys (heap w_unconfigured ! 0))"
    by (simp add: w_unconfigured_def w_fresh_def obj_keys_def)
  have h2: "ANALYTICS_TRACKING_ID w_unconfigured = JUndefined"
    by (simp add: w_unconfigured_def)
  have t: "trace w_unconfigured = []"
    by (simp add: w_unconfigured_def w_fresh_def)
  show ?thesis
    using tracking_id_required_before_store_access[OF h1 h2, of None True] h1 h2 t by simp
qed

text \<open>
  \<^bold>\<open>C3.\<close> \<^verbatim>\<open>_addRequiredParameters\<close> works on a copy: after the call, whether it
  returned or threw, the caller's object is what it was (no key added, removed or
  overwritten), as is every other object that existed before. The object returned
  is a new one, at a reference that did not exist before, and holds the normalised
  copy.
\<close>

theorem caller_object_unchanged:
  assumes "p < length (heap w)"
  shows "heap (snd (addRequiredParameters p s b w)) ! p = heap w ! p \<and>
         take (length (heap w)) (heap (snd (addRequiredParameters p s b w))) = heap w \<and>
         (\<forall>r. fst (addRequiredParameters p s b w) = Returned r \<longrightarrow>
            r \<noteq> p \<and> r = length (heap w) \<and>
            heap (snd (addRequiredParameters p s b w)) ! r =
              fill_required (ANALYTICS_TRACKING_ID w) (fst (getAnalyticsClientId s w))
                (random_src w (random_calls w)) b (json_roundtrip (heap w ! p)))"
proof -
  have pre: "take (length (heap w)) (heap (snd (addRequiredParameters p s b w))) = heap w"
    by (rule addRequiredParameters_heap_prefix)
  have "heap (snd (addRequiredParameters p s b w)) ! p =
        take (length (heap w)) (heap (snd (addRequiredParameters p s b w))) ! p"
    using assms by simp
  then have same: "heap (snd (addRequiredParameters p s b w)) ! p = heap w ! p"
    by (simp only: pre)
  show ?thesis
    using same pre assms addRequiredParameters_result[of p s b w] by auto
qed

theorem caller_object_unchanged_witness:
  "0 < length (heap w_fresh) \<and>
   heap (snd (addRequiredParameters 0 None True w_fresh)) ! 0 = [(''ec'', JStr ''Installed'')] \<and>
   fst (addRequiredParameters 0 None True w_fresh) = Returned 1"
proof -
  have h: "0 < length (heap w_fresh)" by (simp add: w_fresh_def)
  have v: "heap w_fresh ! 0 = [(''ec'', JStr ''Installed'')]" by (simp add: w_fresh_def)
  have f: "fst (addRequiredParameters 0 None True w_fresh) = Returned 1"
    by (simp add: addRequiredParameters_fst w_fresh_def)
  show ?thesis
    using caller_object_unchanged[OF h, of None True] h v f by simp
qed

lemma key_of_defined: "obj_get ps k \<noteq> JUndefined \<Longrightarrow> k \<in> set (obj_keys ps)"
  using obj_get_undefined by blast

lemma truthy_defined: "truthy v \<Longrightarrow> v \<noteq> JUndefined"
  by (cases v) simp_all

lemma getProp_clone:
  "valid_ref p w \<Longrightarrow> obj_get (json_roundtrip (heap w ! p)) k = getProp p k w"
  by (simp add: valid_ref_def getProp_def obj_get_json_roundtrip)

text \<open>
  \<^bold>\<open>C6.\<close> Whenever \<^verbatim>\<open>_addRequiredParameters\<close> returns, the object it returns has the
  keys \<^verbatim>\<open>v\<close>, \<^verbatim>\<open>tid\<close>, \<^verbatim>\<open>cid\<close>, \<^verbatim>\<open>t\<close> and \<^verbatim>\<open>z\<close>. With \<^verbatim>\<open>sentViaUrlFetch\<close> true it also
  has \<^verbatim>\<open>aip\<close> and \<^verbatim>\<open>ds\<close>; with \<^verbatim>\<open>sentViaUrlFetch\<close> false it has \<^verbatim>\<open>aip\<close> (or \<^verbatim>\<open>ds\<close>)
  exactly when the copy of the caller's object had it, that is, when the caller
  supplied it.
\<close>

theorem required_keys_present:
  assumes "fst (addRequiredParameters p s b w) = Returned r"
  shows "{''v'', ''tid'', ''cid'', ''t'', ''z''}
           \<subseteq> set (obj_keys (heap (snd (addRequiredParameters p s b w)) ! r)) \<and>
         (b \<longrightarrow> {''aip'', ''ds''} \<subseteq> set (obj_keys (heap (snd (addRequiredParameters p s b w)) ! r))) \<and>
         (\<not> b \<longrightarrow>
            (''aip'' \<in> set (obj_keys (heap (snd (addRequiredParameters p s b w)) ! r)) \<longleftrightarrow>
             ''aip'' \<in> set (obj_keys (json_roundtrip (heap w ! p)))) \<and>
            (''ds'' \<in> set (obj_keys (heap (snd (addRequiredParameters p s b w)) ! r)) \<longleftrightarrow>
             ''ds'' \<in> set (obj_keys (json_roundtrip (heap w ! p)))))"
proof -
  define o0 where "o0 = json_roundtrip (heap w ! p)"
  have tid: "''tid'' \<in> set (obj_keys o0) \<or> \<not> truthy (obj_get o0 ''tid'')"
    using key_of_defined[of o0 "''tid''"] truthy_defined[of "obj_get o0 ''tid''"] by blast
  show ?thesis
    unfolding addRequiredParameters_result(2)[OF assms] o0_def[symmetric]
    using tid by (simp add: fill_keys)
qed

text \<open>For \<^verbatim>\<open>{ec: 'Installed'}\<close> and no POST: the five keys, and neither \<^verbatim>\<open>aip\<close> nor \<^verbatim>\<open>ds\<close>.\<close>

theorem required_keys_present_witness:
  "fst (addRequiredParameters 0 None False w_fresh) = Returned 1 \<and>
   {''v'', ''tid'', ''cid'', ''t'', ''z''}
      \<subseteq> set (obj_keys (heap (snd (addRequiredParameters 0 None False w_fresh)) ! 1)) \<and>
   ''aip'' \<notin> set (obj_keys (heap (snd (addRequiredParameters 0 None False w_fresh)) ! 1)) \<and>
   ''ds'' \<notin> set (obj_keys (heap (snd (addRequiredParameters 0 None False w_fresh)) ! 1))"
proof -
  have f: "fst (addRequiredParameters 0 None False w_fresh) = Returned 1"
    by (simp add: addRequiredParameters_fst w_fresh_def)
  have k: "obj_keys (json_roundtrip (heap w_fresh ! 0)) = [''ec'']"
    by (simp add: w_fresh_def json_roundtrip_def obj_keys_def)
  show ?thesis
    using required_keys_present[OF f] f k by simp
qed

text \<open>
  \<^bold>\<open>C7\<close>, as stated, fails: the caller's object \<^verbatim>\<open>{tid: '', ni: 0}\<close> has the key
  \<^verbatim>\<open>tid\<close> set, and the result carries the global tracking ID, not the caller's value.
\<close>

theorem tid_set_but_falsy_counterexample:
  "''tid'' \<in> set (obj_keys (heap w_cached ! 0)) \<and>
   getProp 0 ''tid'' w_cached = JStr '''' \<and>
   ANALYTICS_TRACKING_ID w_cached = JStr ''UA-1-1'' \<and>
   fst (addRequiredParameters 0 None False w_cached) = Returned 1 \<and>
   getProp 1 ''tid'' (snd (addRequiredParameters 0 None False w_cached)) = JStr ''UA-1-1''"
proof -
  have f: "fst (addRequiredParameters 0 None False w_cached) = Returned 1"
    by (simp add: addRequiredParameters_fst w_cached_def)
  have c: "obj_get (json_roundtrip (heap w_cached ! 0)) ''tid'' = JStr ''''"
    by (simp add: w_cached_def json_roundtrip_def)
  have t: "ANALYTICS_TRACKING_ID w_cached = JStr ''UA-1-1''"
    by (simp add: w_cached_def)
  have "getProp 1 ''tid'' (snd (addRequiredParameters 0 None False w_cached)) = JStr ''UA-1-1''"
    unfolding getProp_def addRequiredParameters_result(2)[OF f] fill_tid c t by simp
  then show ?thesis
    using f t by (simp add: w_cached_def getProp_def obj_keys_def)
qed

text \<open>
  \<^bold>\<open>C7, amended.\<close> When the caller's \<^verbatim>\<open>tid\<close> is truthy (a non-empty string, a finite
  non-zero number or \<^verbatim>\<open>true\<close>), \<^verbatim>\<open>_addRequiredParameters\<close> returns and the result carries the
  caller's \<^verbatim>\<open>tid\<close> unchanged, whatever the global tracking ID is.
\<close>

theorem truthy_tid_kept:
  assumes "valid_ref p w" and "truthy (getProp p ''tid'' w)"
  shows "fst (addRequiredParameters p s b w) = Returned (length (heap w)) \<and>
         getProp (length (heap w)) ''tid'' (snd (addRequiredParameters p s b w)) = getProp p ''tid'' w"
proof -
  have c: "truthy (obj_get (json_roundtrip (heap w ! p)) ''tid'')"
    using assms by (simp add: getProp_clone)
  have f: "fst (addRequiredParameters p s b w) = Returned (length (heap w))"
    using c by (simp add: addRequiredParameters_fst)
  show ?thesis
    unfolding getProp_def[of "length (heap w)"] addRequiredParameters_result(2)[OF f] fill_tid
    using f c getProp_clone[OF assms(1)] by simp
qed

text \<open>For \<^verbatim>\<open>{tid: 'UA-9-9'}\<close> while the global tracking ID is \<^verbatim>\<open>'UA-1-1'\<close>.\<close>

theorem truthy_tid_kept_witness:
  "valid_ref 0 (w_fresh\<lparr>heap := [[(''tid'', JStr ''UA-9-9'')]]\<rparr>) \<and>
   getProp 1 ''tid'' (snd (addRequiredParameters 0 None True (w_fresh\<lparr>heap := [[(''tid'', JStr ''UA-9-9'')]]\<rparr>)))
     = JStr ''UA-9-9''"
proof -
  have v: "valid_ref 0 (w_fresh\<lparr>heap := [[(''tid'', JStr ''UA-9-9'')]]\<rparr>)"
    by (simp add: valid_ref_def obj_keys_def)
  have t: "getProp 0 ''tid'' (w_fresh\<lparr>heap := [[(''tid'', JStr ''UA-9-9'')]]\<rparr>) = JStr ''UA-9-9''"
    by (simp add: getProp_def)
  have tt: "truthy (getProp 0 ''tid'' (w_fresh\<lparr>heap := [[(''tid'', JStr ''UA-9-9'')]]\<rparr>))"
    by (simp add: t)
  show ?thesis
    using truthy_tid_kept[OF v tt, of None True] v t by simp
qed

text \<open>
  \<^bold>\<open>C8.\<close> The hit type of the result is the caller's \<^verbatim>\<open>t\<close>, or \<^verbatim>\<open>'event'\<close> when that is
  absent (falsy). When the hit type of the result is \<^verbatim>\<open>'event'\<close> and the caller's \<^verbatim>\<open>el\<close>
  is absent (falsy), the result has \<^verbatim>\<open>el\<close> set to the empty string. For every other
  hit type \<^verbatim>\<open>el\<close> is as the caller gave it and no \<^verbatim>\<open>el\<close> key is added. A truthy \<^verbatim>\<open>el\<close>
  is always kept.
\<close>

theorem event_label_default:
  assumes "valid_ref p w" and "fst (addRequiredParameters p s b w) = Returned r"
  shows "getProp r ''t'' (snd (addRequiredParameters p s b w)) = js_or (getProp p ''t'' w) (JStr ''event'') \<and>
         (getProp r ''t'' (snd (addRequiredParameters p s b w)) = JStr ''event'' \<and>
            \<not> truthy (getProp p ''el'' w) \<longrightarrow>
              getProp r ''el'' (snd (addRequiredParameters p s b w)) = JStr '''' \<and>
              ''el'' \<in> set (obj_keys (heap (snd (addRequiredParameters p s b w)) ! r))) \<and>
         (getProp r ''t'' (snd (addRequiredParameters p s b w)) \<noteq> JStr ''event'' \<longrightarrow>
              getProp r ''el'' (snd (addRequiredParameters p s b w)) = getProp p ''el'' w \<and>
              (''el'' \<in> set (obj_keys (heap (snd (addRequiredParameters p s b w)) ! r)) \<longleftrightarrow>
               ''el'' \<in> set (obj_keys (json_roundtrip (heap w ! p))))) \<and>
         (truthy (getProp p ''el'' w) \<longrightarrow>
              getProp r ''el'' (snd (addRequiredParameters p s b w)) = getProp p ''el'' w)"
proof -
  define o0 where "o0 = json_roundtrip (heap w ! p)"
  have g: "obj_get o0 k = getProp p k w" for k
    unfolding o0_def by (rule getProp_clone[OF assms(1)])
  show ?thesis
    unfolding getProp_def[of r] addRequiredParameters_result(2)[OF assms(2)] o0_def[symmetric]
    by (simp add: fill_t fill_el fill_keys g)
qed

text \<open>For \<^verbatim>\<open>{ec: 'Installed'}\<close>: the hit type defaults to \<^verbatim>\<open>'event'\<close> and \<^verbatim>\<open>el\<close> to the empty string.\<close>

theorem event_label_default_witness:
  "valid_ref 0 w_fresh \<and>
   fst (addRequiredParameters 0 None False w_fresh) = Returned 1 \<and>
   getProp 1 ''t'' (snd (addRequiredParameters 0 None False w_fresh)) = JStr ''event'' \<and>
   getProp 1 ''el'' (snd (addRequiredParameters 0 None False w_fresh)) = JStr ''''"
proof -
  have v: "valid_ref 0 w_fresh"
    by (simp add: valid_ref_def w_fresh_def obj_keys_def)
  have f: "fst (addRequiredParameters 0 None False w_fresh) = Returned 1"
    by (simp add: addRequiredParameters_fst w_fresh_def)
  have t: "getProp 0 ''t'' w_fresh = JUndefined" "getProp 0 ''el'' w_fresh = JUndefined"
    by (simp_all add: getProp_def w_fresh_def)
  show ?thesis
    using event_label_default[OF v f] v f t by (simp add: js_or_def)
qed

text \<open>
  \<^bold>\<open>C9.\<close> Given that \<^verbatim>\<open>Math.random()\<close> returns a double of \<open>[0, 1)\<close>, whenever
  \<^verbatim>\<open>_addRequiredParameters\<close> returns, \<^verbatim>\<open>z\<close> in the result is the integer
  \<^verbatim>\<open>Math.floor(x * 10E7)\<close> for the draw \<open>x\<close> this call consumed, the product being the
  rounded product of doubles; it is at least 0 and less than \<open>10\<^sup>8\<close>, and exactly
  one draw was consumed. Nothing is assumed about the caller's object, so a \<^verbatim>\<open>z\<close> the
  caller supplied is overwritten. Every integer of \<open>[0, 10\<^sup>8)\<close> is the \<^verbatim>\<open>z\<close> of some
  draw that is a double of \<open>[0, 1)\<close>.
\<close>

theorem cache_buster_range:
  assumes "fst (addRequiredParameters p s b w) = Returned r"
    and "is_double (random_src w (random_calls w))"
    and "double_val (random_src w (random_calls w)) < 1"
  shows "getProp r ''z'' (snd (addRequiredParameters p s b w)) =
           JNum (Math_floor (double_mul (random_src w (random_calls w)) ten_E7)) \<and>
         0 \<le> Math_floor (double_mul (random_src w (random_calls w)) ten_E7) \<and>
         Math_floor (double_mul (random_src w (random_calls w)) ten_E7) < 10 ^ 8 \<and>
         random_calls (snd (addRequiredParameters p s b w)) = Suc (random_calls w) \<and>
         (\<forall>n. 0 \<le> n \<and> n < 10 ^ 8 \<longrightarrow>
            (\<exists>x. is_double x \<and> 0 \<le> double_val x \<and> double_val x < 1 \<and>
               getProp r ''z'' (snd (addRequiredParameters p s b (w\<lparr>random_src := \<lambda>i. x\<rparr>))) = JNum n))"
proof -
  let ?x = "random_src w (random_calls w)"
  have c: "truthy (obj_get (json_roundtrip (heap w ! p)) ''tid'') \<or> truthy (ANALYTICS_TRACKING_ID w)"
    by (rule addRequiredParameters_result(3)[OF assms(1)])
  have z: "getProp r ''z'' (snd (addRequiredParameters p s b w)) = JNum (Math_floor (double_mul ?x ten_E7))"
    unfolding getProp_def addRequiredParameters_result(2)[OF assms(1)] fill_z by simp
  have lo: "0 \<le> Math_floor (double_mul ?x ten_E7)"
    by (rule cache_buster_below(1)[OF assms(2) assms(3)])
  have hi: "Math_floor (double_mul ?x ten_E7) < 10 ^ 8"
    by (rule cache_buster_below(2)[OF assms(2) assms(3)])
  have calls: "random_calls (snd (addRequiredParameters p s b w)) = Suc (random_calls w)"
    by (simp add: addRequiredParameters_Returned[OF c])
  have all: "\<exists>x. is_double x \<and> 0 \<le> double_val x \<and> double_val x < 1 \<and>
               getProp r ''z'' (snd (addRequiredParameters p s b (w\<lparr>random_src := \<lambda>i. x\<rparr>))) = JNum n"
    if n: "0 \<le> n \<and> n < 10 ^ 8" for n :: int
  proof -
    let ?w = "\<lambda>x. w\<lparr>random_src := \<lambda>i. x\<rparr>"
    have f: "fst (addRequiredParameters p s b (?w x)) = Returned r" for x
      using assms(1) by (auto simp: addRequiredParameters_fst split: if_splits)
    have zx: "getProp r ''z'' (snd (addRequiredParameters p s b (?w x))) =
                JNum (Math_floor (double_mul x ten_E7))" for x
      unfolding getProp_def addRequiredParameters_result(2)[OF f] fill_z by simp
    define k where "k = nat n"
    have kn: "int k = n" using n by (simp add: k_def)
    have "int k < int (10 ^ 8)" using n kn by simp
    then have k8: "k < 10 ^ 8" by (simp only: of_nat_less_iff)
    show ?thesis
    proof (intro exI conjI)
      show "is_double (draw_for k)" by (rule cache_buster_onto(1)[OF k8])
      show "0 \<le> double_val (draw_for k)" by (simp add: double_val_def)
      show "double_val (draw_for k) < 1" by (rule cache_buster_onto(2)[OF k8])
      show "getProp r ''z'' (snd (addRequiredParameters p s b (?w (draw_for k)))) = JNum n"
        unfolding zx cache_buster_onto(3)[OF k8] kn by (rule refl)
    qed
  qed
  show ?thesis
  proof (intro conjI allI impI)
    show "getProp r ''z'' (snd (addRequiredParameters p s b w)) = JNum (Math_floor (double_mul ?x ten_E7))"
      by (rule z)
    show "0 \<le> Math_floor (double_mul ?x ten_E7)" by (rule lo)
    show "Math_floor (double_mul ?x ten_E7) < 10 ^ 8" by (rule hi)
    show "random_calls (snd (addRequiredParameters p s b w)) = Suc (random_calls w)"
      by (rule calls)
    fix n :: int
    assume "0 \<le> n \<and> n < 10 ^ 8"
    then show "\<exists>x. is_double x \<and> 0 \<le> double_val x \<and> double_val x < 1 \<and>
               getProp r ''z'' (snd (addRequiredParameters p s b (w\<lparr>random_src := \<lambda>i. x\<rparr>))) = JNum n"
      by (rule all)
  qed
qed

text \<open>
  For \<^verbatim>\<open>{z: 'mine'}\<close> and the draw \<open>0.7\<close>, the double \<open>6305039478318694 * 2\<close> to the
  \<open>-53\<close>: the rounded product is \<open>70000000\<close>, where the exact one is just below.
\<close>

theorem cache_buster_range_witness:
  "fst (addRequiredParameters 0 None False
         (w_fresh\<lparr>heap := [[(''z'', JStr ''mine'')]], random_src := \<lambda>n. (6305039478318694, - 53)\<rparr>))
     = Returned 1 \<and>
   is_double (6305039478318694, - 53) \<and>
   double_val (6305039478318694, - 53) < 1 \<and>
   \<lfloor>double_val (6305039478318694, - 53) * 10 ^ 8\<rfloor> = 69999999 \<and>
   getProp 1 ''z'' (snd (addRequiredParameters 0 None False
         (w_fresh\<lparr>heap := [[(''z'', JStr ''mine'')]], random_src := \<lambda>n. (6305039478318694, - 53)\<rparr>)))
     = JNum 70000000"
proof -
  let ?w = "w_fresh\<lparr>heap := [[(''z'', JStr ''mine'')]], random_src := \<lambda>n. (6305039478318694, - 53)\<rparr>"
  have f: "fst (addRequiredParameters 0 None False ?w) = Returned 1"
    by (simp add: addRequiredParameters_fst w_fresh_def)
  have x: "random_src ?w (random_calls ?w) = (6305039478318694, - 53)"
    by simp
  have d: "is_double (6305039478318694, - 53)"
    by (simp add: is_double_def)
  have v: "double_val (6305039478318694, - 53) = 6305039478318694 / 9007199254740992"
    by (simp add: double_val_def power_int_def field_simps)
  have l: "double_val (6305039478318694, - 53) < 1"
    unfolding v by simp
  have e: "\<lfloor>double_val (6305039478318694, - 53) * 10 ^ 8\<rfloor> = 69999999"
    unfolding v by simp
  have d': "is_double (random_src ?w (random_calls ?w))"
    unfolding x by (rule d)
  have l': "double_val (random_src ?w (random_calls ?w)) < 1"
    unfolding x by (rule l)
  note t = cache_buster_range[OF f d' l', THEN conjunct1]
  have "getProp 1 ''z'' (snd (addRequiredParameters 0 None False ?w)) = JNum 70000000"
    using t unfolding x z_07 by simp
  then show ?thesis
    using f d l e by simp
qed

subsection \<open>Claims about the client identifier\<close>

lemma is_uuid_nonempty: "is_uuid u \<Longrightarrow> u \<noteq> []"
  by (auto simp: is_uuid_def)

lemma store_writes_append [simp]: "store_writes (xs @ ys) = store_writes xs + store_writes ys"
  by (simp add: store_writes_def)

lemma store_reads_append [simp]: "store_reads (xs @ ys) = store_reads xs + store_reads ys"
  by (simp add: store_reads_def)

text \<open>The first call of a process: what it returns and what it leaves, case by case.\<close>

lemma getAnalyticsClientId_stored:
  assumes "\<not> truthy (clientId w)" and "stores w (resolve_store s) ''clientId'' = Some v" and "v \<noteq> []"
  shows "getAnalyticsClientId s w =
           (JStr v, w\<lparr>clientId := JStr v,
                      trace := trace w @ (case s of None \<Rightarrow> [GetUserProperties] | Some x \<Rightarrow> []) @
                               [GetProperty (resolve_store s) ''clientId'']\<rparr>)"
  using assms by (cases s) (simp_all add: gaci_defs resolve_store_def)

lemma getAnalyticsClientId_generated:
  assumes "\<not> truthy (clientId w)"
    and "stores w (resolve_store s) ''clientId'' = None \<or> stores w (resolve_store s) ''clientId'' = Some []"
  shows "getAnalyticsClientId s w =
           (JStr (uuid_src w (uuid_calls w)),
            w\<lparr>clientId := JStr (uuid_src w (uuid_calls w)),
              uuid_calls := Suc (uuid_calls w),
              stores := (stores w)(resolve_store s :=
                          (stores w (resolve_store s))(''clientId'' \<mapsto> uuid_src w (uuid_calls w))),
              trace := trace w @ (case s of None \<Rightarrow> [GetUserProperties] | Some x \<Rightarrow> []) @
                       [GetProperty (resolve_store s) ''clientId'',
                        SetProperty (resolve_store s) ''clientId'' (uuid_src w (uuid_calls w))]\<rparr>)"
  using assms by (cases s) (auto simp: gaci_defs resolve_store_def)


text \<open>
  \<^bold>\<open>C4.\<close> A process with an empty cache calls \<^verbatim>\<open>getAnalyticsClientId\<close> on a store that
  has no \<^verbatim>\<open>clientId\<close> (an empty store in particular), and \<^verbatim>\<open>Utilities.getUuid()\<close> yields
  a string of UUID form. Then the call takes one value from \<^verbatim>\<open>Utilities.getUuid()\<close>,
  returns it, caches it and writes it to the store under \<^verbatim>\<open>clientId\<close>, with one
  store write. A second process, with an empty cache and the stores as the first
  one left them, gets the same value back from the same call, takes no value from
  \<^verbatim>\<open>Utilities.getUuid()\<close>, writes nothing and leaves the stores as they are.
\<close>

theorem first_call_persists_next_process_reuses:
  assumes "clientId w = JUndefined"
    and "stores w (resolve_store s) ''clientId'' = None"
    and "is_uuid (uuid_src w (uuid_calls w))"
    and "clientId w2 = JUndefined"
    and "stores w2 = stores (snd (getAnalyticsClientId s w))"
  shows "(\<exists>u. fst (getAnalyticsClientId s w) = JStr u \<and> is_uuid u \<and>
              u = uuid_src w (uuid_calls w) \<and>
              stores (snd (getAnalyticsClientId s w)) (resolve_store s) ''clientId'' = Some u \<and>
              clientId (snd (getAnalyticsClientId s w)) = JStr u) \<and>
         uuid_calls (snd (getAnalyticsClientId s w)) = Suc (uuid_calls w) \<and>
         store_writes (trace (snd (getAnalyticsClientId s w))) = Suc (store_writes (trace w)) \<and>
         fst (getAnalyticsClientId s w2) = fst (getAnalyticsClientId s w) \<and>
         uuid_calls (snd (getAnalyticsClientId s w2)) = uuid_calls w2 \<and>
         store_writes (trace (snd (getAnalyticsClientId s w2))) = store_writes (trace w2) \<and>
         stores (snd (getAnalyticsClientId s w2)) = stores w2"
proof -
  let ?u = "uuid_src w (uuid_calls w)"
  have nf: "\<not> truthy (clientId w)" using assms(1) by simp
  have first: "getAnalyticsClientId s w =
           (JStr ?u,
            w\<lparr>clientId := JStr ?u,
              uuid_calls := Suc (uuid_calls w),
              stores := (stores w)(resolve_store s := (stores w (resolve_store s))(''clientId'' \<mapsto> ?u)),
              trace := trace w @ (case s of None \<Rightarrow> [GetUserProperties] | Some x \<Rightarrow> []) @
                       [GetProperty (resolve_store s) ''clientId'',
                        SetProperty (resolve_store s) ''clientId'' ?u]\<rparr>)"
    using getAnalyticsClientId_generated[OF nf, of s] assms(2) by simp
  have ne: "?u \<noteq> []" using assms(3) by (rule is_uuid_nonempty)
  have nf2: "\<not> truthy (clientId w2)" using assms(4) by simp
  have st2: "stores w2 (resolve_store s) ''clientId'' = Some ?u"
    unfolding assms(5) first by simp
  note second = getAnalyticsClientId_stored[OF nf2 st2 ne]
  have w1: "store_writes (trace w @ (case s of None \<Rightarrow> [GetUserProperties] | Some x \<Rightarrow> []) @
                       [GetProperty (resolve_store s) ''clientId'',
                        SetProperty (resolve_store s) ''clientId'' ?u]) = Suc (store_writes (trace w))"
    by (cases s) (simp_all add: store_writes_def)
  have w2: "store_writes (trace w2 @ (case s of None \<Rightarrow> [GetUserProperties] | Some x \<Rightarrow> []) @
                               [GetProperty (resolve_store s) ''clientId'']) = store_writes (trace w2)"
    by (cases s) (simp_all add: store_writes_def)
  show ?thesis
    unfolding second unfolding first using assms(3) w1 w2 by simp
qed

text \<open>The next process: the state the first one left, with the cache empty again.\<close>

theorem first_call_persists_witness:
  "clientId w_fresh = JUndefined \<and>
   stores w_fresh (resolve_store None) ''clientId'' = None \<and>
   is_uuid (uuid_src w_fresh (uuid_calls w_fresh)) \<and>
   fst (getAnalyticsClientId None w_fresh) = JStr ''123e4567-e89b-42d3-a456-426614174000'' \<and>
   fst (getAnalyticsClientId None ((snd (getAnalyticsClientId None w_fresh))\<lparr>clientId := JUndefined\<rparr>))
     = JStr ''123e4567-e89b-42d3-a456-426614174000''"
proof -
  let ?w2 = "(snd (getAnalyticsClientId None w_fresh))\<lparr>clientId := JUndefined\<rparr>"
  have a1: "clientId w_fresh = JUndefined" by (simp add: w_fresh_def)
  have a2: "stores w_fresh (resolve_store None) ''clientId'' = None" by (simp add: w_fresh_def)
  have u: "uuid_src w_fresh (uuid_calls w_fresh) = ''123e4567-e89b-42d3-a456-426614174000''"
    by (simp add: w_fresh_def)
  have a3: "is_uuid (uuid_src w_fresh (uuid_calls w_fresh))"
    unfolding u by (simp add: is_uuid_def uuid_shape_def is_hex_digit_def)
  have a4: "clientId ?w2 = JUndefined" by simp
  have a5: "stores ?w2 = stores (snd (getAnalyticsClientId None w_fresh))" by simp
  show ?thesis
    using first_call_persists_next_process_reuses[OF a1 a2 a3 a4 a5] a1 a2 a3 by (simp add: u)
qed



subsection \<open>Claims about the tracking URL\<close>

lemma generateAnalyticsTrackingUrl_Returned:
  assumes "fst (addRequiredParameters p s False w) = Returned r"
  shows "generateAnalyticsTrackingUrl p s w =
           (Returned (''https://www.google-analytics.com/collect?'' @
                      join ''&amp;'' (map urlParam (heap (snd (addRequiredParameters p s False w)) ! r))),
            snd (addRequiredParameters p s False w))"
  using assms
  by (cases "addRequiredParameters p s False w") (simp add: generateAnalyticsTrackingUrl_def)

lemma generateAnalyticsTrackingUrl_Threw:
  assumes "fst (addRequiredParameters p s False w) = Threw e"
  shows "generateAnalyticsTrackingUrl p s w = (Threw e, snd (addRequiredParameters p s False w))"
  using assms
  by (cases "addRequiredParameters p s False w") (simp add: generateAnalyticsTrackingUrl_def)

lemma urlParam_spec_urlParam:
  "truthy v \<or> v = JStr '''' \<Longrightarrow> urlParam (k, v) = spec_urlParam (k, v)"
  by (auto simp: urlParam_def spec_urlParam_def)

lemma encodeURI_Nil [simp]: "encodeURI [] = []"
  by (simp add: encodeURI_def)

lemma encodeURI_Cons:
  "encodeURI (c # cs) = (if uri_unescaped c then [c] else percent_byte c) @ encodeURI cs"
  by (simp add: encodeURI_def)

lemma dec_50000000: "int_to_dec 50000000 = ''50000000''"
  by (simp add: int_to_dec_def nat_to_dec.simps digit_char_def)

lemma dec_0: "int_to_dec 0 = ''0''"
  by (simp add: int_to_dec_def nat_to_dec.simps digit_char_def)

lemma enc_examples:
  "encodeURI ''UA-1-1'' = ''UA-1-1''"
  "encodeURI ''c1'' = ''c1''"
  "encodeURI ''event'' = ''event''"
  "encodeURI ''1'' = ''1''"
  "encodeURI ''0'' = ''0''"
  "encodeURI ''50000000'' = ''50000000''"
  by (simp_all add: encodeURI_Cons uri_unescaped_def)

lemma fill_w_cached:
  "fill_required (JStr ''UA-1-1'') (JStr ''c1'') (1, - 1) False [(''tid'', JStr ''''), (''ni'', JNum 0)] =
     [(''tid'', JStr ''UA-1-1''), (''ni'', JNum 0), (''cid'', JStr ''c1''), (''t'', JStr ''event''),
      (''el'', JStr ''''), (''v'', JStr ''1''), (''z'', JNum 50000000)]"
  by (simp add: fill_required_def Let_def js_or_def z_half_Suc)

lemma normalised_w_cached:
  "fst (addRequiredParameters 0 None False w_cached) = Returned 1"
  "heap (snd (addRequiredParameters 0 None False w_cached)) ! 1 =
     [(''tid'', JStr ''UA-1-1''), (''ni'', JNum 0), (''cid'', JStr ''c1''), (''t'', JStr ''event''),
      (''el'', JStr ''''), (''v'', JStr ''1''), (''z'', JNum 50000000)]"
proof -
  show f: "fst (addRequiredParameters 0 None False w_cached) = Returned 1"
    by (simp add: addRequiredParameters_fst w_cached_def)
  have c: "truthy (clientId w_cached)" by (simp add: w_cached_def)
  have "heap (snd (addRequiredParameters 0 None False w_cached)) ! 1 =
      fill_required (JStr ''UA-1-1'') (JStr ''c1'') (1, - 1) False [(''tid'', JStr ''''), (''ni'', JNum 0)]"
    unfolding addRequiredParameters_result(2)[OF f] getAnalyticsClientId_cached[OF c]
    by (simp add: w_cached_def json_roundtrip_def)
  then show "heap (snd (addRequiredParameters 0 None False w_cached)) ! 1 =
     [(''tid'', JStr ''UA-1-1''), (''ni'', JNum 0), (''cid'', JStr ''c1''), (''t'', JStr ''event''),
      (''el'', JStr ''''), (''v'', JStr ''1''), (''z'', JNum 50000000)]"
    by (simp only: fill_w_cached)
qed

text \<open>
  \<^bold>\<open>C2\<close>, as stated, fails. For the caller's object \<^verbatim>\<open>{tid: '', ni: 0}\<close> the function
  returns a URL whose pairs are joined by the five characters \<^verbatim>\<open>&amp;\<close> and in which
  the falsy value \<^verbatim>\<open>0\<close> of \<^verbatim>\<open>ni\<close> is written \<^verbatim>\<open>ni=0\<close>; the serialisation of the claim
  joins with \<^verbatim>\<open>&\<close> and writes \<^verbatim>\<open>ni\<close> alone.
\<close>

theorem tracking_url_counterexample:
  "fst (generateAnalyticsTrackingUrl 0 None w_cached) =
     Returned ''https://www.google-analytics.com/collect?tid=UA-1-1&amp;ni=0&amp;cid=c1&amp;t=event&amp;el&amp;v=1&amp;z=50000000'' \<and>
   spec_tracking_url (heap (snd (generateAnalyticsTrackingUrl 0 None w_cached)) ! 1) =
     ''https://www.google-analytics.com/collect?tid=UA-1-1&ni&cid=c1&t=event&el&v=1&z=50000000'' \<and>
   fst (generateAnalyticsTrackingUrl 0 None w_cached) \<noteq>
     Returned (spec_tracking_url (heap (snd (generateAnalyticsTrackingUrl 0 None w_cached)) ! 1))"
proof -
  note g = generateAnalyticsTrackingUrl_Returned[OF normalised_w_cached(1)]
  have a: "fst (generateAnalyticsTrackingUrl 0 None w_cached) =
     Returned ''https://www.google-analytics.com/collect?tid=UA-1-1&amp;ni=0&amp;cid=c1&amp;t=event&amp;el&amp;v=1&amp;z=50000000''"
    unfolding g normalised_w_cached(2)
    by (simp add: urlParam_def dec_50000000 dec_0 enc_examples)
  have b: "spec_tracking_url (heap (snd (generateAnalyticsTrackingUrl 0 None w_cached)) ! 1) =
     ''https://www.google-analytics.com/collect?tid=UA-1-1&ni&cid=c1&t=event&el&v=1&z=50000000''"
    unfolding g snd_conv normalised_w_cached(2)
    by (simp add: spec_tracking_url_def spec_urlParam_def dec_50000000 enc_examples)
  show ?thesis
    unfolding a b by simp
qed

text \<open>
  \<^bold>\<open>C2, amended.\<close> Whenever normalisation (with \<^verbatim>\<open>sentViaUrlFetch\<close> falsy) returns,
  \<^verbatim>\<open>generateAnalyticsTrackingUrl\<close> returns the fixed endpoint followed by \<^verbatim>\<open>?\<close> and the
  serialisation of the normalised object that, for each key in the object's order,
  has the key alone when its value is the empty string and otherwise the key, \<^verbatim>\<open>=\<close>
  and \<^verbatim>\<open>encodeURI\<close> of the value's string form, all pairs joined by the string
  \<^verbatim>\<open>&amp;\<close>; the state is the one normalisation left.
\<close>

theorem tracking_url_serialisation:
  assumes "fst (addRequiredParameters p s False w) = Returned r"
  shows "generateAnalyticsTrackingUrl p s w =
           (Returned (''https://www.google-analytics.com/collect'' @ ''?'' @
                      join ''&amp;''
                        (map (\<lambda>(key, v). if v = JStr '''' then key else key @ ''='' @ encodeURI (ToString v))
                           (heap (snd (addRequiredParameters p s False w)) ! r))),
            snd (addRequiredParameters p s False w))"
proof -
  have "urlParam = (\<lambda>(key, v). if v = JStr '''' then key else key @ ''='' @ encodeURI (ToString v))"
    by (auto simp: urlParam_def fun_eq_iff)
  then show ?thesis
    using generateAnalyticsTrackingUrl_Returned[OF assms] by simp
qed

text \<open>The same call, pair by pair.\<close>

theorem tracking_url_serialisation_witness:
  "fst (addRequiredParameters 0 None False w_cached) = Returned 1 \<and>
   fst (generateAnalyticsTrackingUrl 0 None w_cached) =
     Returned (''https://www.google-analytics.com/collect?'' @
       join ''&amp;'' [''tid=UA-1-1'', ''ni=0'', ''cid=c1'', ''t=event'', ''el'', ''v=1'', ''z=50000000''])"
proof -
  note t = tracking_url_serialisation[OF normalised_w_cached(1)]
  show ?thesis
    unfolding t normalised_w_cached
    by (simp add: dec_50000000 dec_0 enc_examples)
qed

subsection \<open>Absent means falsy\<close>

lemma obj_get_obj_delete:
  "obj_get (obj_delete k ps) k' = (if k' = k then JUndefined else obj_get ps k')"
  by (induction ps) (auto simp: obj_delete_def)

lemma keys_obj_delete: "set (obj_keys (obj_delete k ps)) = set (obj_keys ps) - {k}"
  by (auto simp: obj_delete_def obj_keys_def)

lemma json_roundtrip_obj_delete:
  "json_roundtrip (obj_delete k ps) = obj_delete k (json_roundtrip ps)"
  by (induction ps) (auto simp: obj_delete_def json_roundtrip_def)

lemma fill_get:
  "obj_get (fill_required tr cid r b o0) k =
     (if k = ''tid'' then (if truthy (obj_get o0 ''tid'') then obj_get o0 ''tid'' else tr)
      else if k = ''cid'' then cid
      else if k = ''t'' then js_or (obj_get o0 ''t'') (JStr ''event'')
      else if k = ''el'' then
        (if js_or (obj_get o0 ''t'') (JStr ''event'') = JStr ''event'' \<and> \<not> truthy (obj_get o0 ''el'')
         then JStr '''' else obj_get o0 ''el'')
      else if k = ''v'' then JStr ''1''
      else if k = ''z'' then JNum (Math_floor (double_mul r ten_E7))
      else if k = ''ds'' then (if b then js_or (obj_get o0 ''ds'') (JStr ''urlFetch'') else obj_get o0 ''ds'')
      else if k = ''aip'' then (if b then JStr ''1'' else obj_get o0 ''aip'')
      else obj_get o0 k)"
  using fill_tid[of tr cid r b o0] fill_cid[of tr cid r b o0] fill_t[of tr cid r b o0]
    fill_el[of tr cid r b o0] fill_v[of tr cid r b o0] fill_z[of tr cid r b o0]
    fill_ds[of tr cid r b o0] fill_aip[of tr cid r b o0] fill_other[of k tr cid r b o0]
  by simp

text \<open>
  Deleting a property whose value is falsy changes no property of the normalised
  object, provided the property is one the function defaults on this call.
\<close>

lemma fill_required_delete_falsy:
  assumes "\<not> truthy (obj_get o0 k)"
    and "k = ''tid'' \<or> k = ''t'' \<or>
         (k = ''el'' \<and> js_or (obj_get o0 ''t'') (JStr ''event'') = JStr ''event'') \<or>
         (k = ''ds'' \<and> b)"
  shows "obj_get (fill_required tr cid r b (obj_delete k o0)) k' = obj_get (fill_required tr cid r b o0) k'"
proof -
  consider (tid) "k = ''tid''" | (t) "k = ''t''"
    | (el) "k = ''el''" "js_or (obj_get o0 ''t'') (JStr ''event'') = JStr ''event''"
    | (ds) "k = ''ds''" "b"
    using assms(2) by auto
  then show ?thesis
  proof cases
    case tid
    then have f: "\<not> truthy (obj_get o0 ''tid'')" using assms(1) by simp
    show ?thesis unfolding fill_get tid using f by (simp add: obj_get_obj_delete)
  next
    case t
    then have f: "\<not> truthy (obj_get o0 ''t'')" using assms(1) by simp
    show ?thesis unfolding fill_get t using f by (simp add: obj_get_obj_delete js_or_def)
  next
    case el
    then have f: "\<not> truthy (obj_get o0 ''el'')" using assms(1) by simp
    show ?thesis unfolding fill_get el(1) using f el(2) by (simp add: obj_get_obj_delete)
  next
    case ds
    then have f: "\<not> truthy (obj_get o0 ''ds'')" using assms(1) by simp
    show ?thesis unfolding fill_get ds(1) using f ds(2) by (simp add: obj_get_obj_delete js_or_def)
  qed
qed

lemma deleteProp_simps:
  "length (heap (deleteProp p k w)) = length (heap w)"
  "p < length (heap w) \<Longrightarrow> heap (deleteProp p k w) ! p = obj_delete k (heap w ! p)"
  "ANALYTICS_TRACKING_ID (deleteProp p k w) = ANALYTICS_TRACKING_ID w"
  "random_src (deleteProp p k w) = random_src w"
  "random_calls (deleteProp p k w) = random_calls w"
  "fst (getAnalyticsClientId s (deleteProp p k w)) = fst (getAnalyticsClientId s w)"
  by (simp_all add: deleteProp_def getAnalyticsClientId_heap_update)

lemma deleteProp_getAnalyticsClientId:
  "trace (snd (getAnalyticsClientId s (deleteProp p k w))) = trace (snd (getAnalyticsClientId s w))"
  "stores (snd (getAnalyticsClientId s (deleteProp p k w))) = stores (snd (getAnalyticsClientId s w))"
  "clientId (snd (getAnalyticsClientId s (deleteProp p k w))) = clientId (snd (getAnalyticsClientId s w))"
  by (simp_all add: deleteProp_def getAnalyticsClientId_heap_update)

text \<open>
  \<^bold>\<open>C10.\<close> \<^verbatim>\<open>_addRequiredParameters\<close> decides that a parameter is absent by its
  truthiness. Let the caller's object hold a falsy value (a missing key included)
  under \<open>k\<close>, where \<open>k\<close> is \<^verbatim>\<open>tid\<close>, or \<^verbatim>\<open>t\<close>, or \<^verbatim>\<open>el\<close> while the hit type resolves to
  \<^verbatim>\<open>'event'\<close>, or \<^verbatim>\<open>ds\<close> while \<^verbatim>\<open>sentViaUrlFetch\<close> is true. Then the call behaves as
  on the same object with the key \<open>k\<close> deleted: the same outcome (the same error or
  the same reference), the same calls to the Properties service, the same stores,
  and the same value under every key of the result. In particular a falsy \<^verbatim>\<open>tid\<close>
  gives the global tracking ID when that is truthy and the tracking-ID-required error
  when it is not, a falsy \<^verbatim>\<open>t\<close> gives \<^verbatim>\<open>'event'\<close>, a falsy \<^verbatim>\<open>el\<close> under an event hit
  gives the empty string, and a falsy \<^verbatim>\<open>ds\<close> under \<^verbatim>\<open>sentViaUrlFetch\<close> gives
  \<^verbatim>\<open>'urlFetch'\<close>.
\<close>

theorem falsy_value_treated_as_missing:
  assumes "valid_ref p w" and "\<not> truthy (getProp p k w)"
    and "k = ''tid'' \<or> k = ''t'' \<or>
         (k = ''el'' \<and> js_or (getProp p ''t'' w) (JStr ''event'') = JStr ''event'') \<or>
         (k = ''ds'' \<and> b)"
  shows "fst (addRequiredParameters p s b w) = fst (addRequiredParameters p s b (deleteProp p k w)) \<and>
         trace (snd (addRequiredParameters p s b w)) = trace (snd (addRequiredParameters p s b (deleteProp p k w))) \<and>
         stores (snd (addRequiredParameters p s b w)) = stores (snd (addRequiredParameters p s b (deleteProp p k w))) \<and>
         (\<forall>r k'. fst (addRequiredParameters p s b w) = Returned r \<longrightarrow>
            getProp r k' (snd (addRequiredParameters p s b w)) =
            getProp r k' (snd (addRequiredParameters p s b (deleteProp p k w)))) \<and>
         (k = ''tid'' \<longrightarrow>
            (if truthy (ANALYTICS_TRACKING_ID w)
             then fst (addRequiredParameters p s b w) = Returned (length (heap w)) \<and>
                  getProp (length (heap w)) ''tid'' (snd (addRequiredParameters p s b w)) = ANALYTICS_TRACKING_ID w
             else fst (addRequiredParameters p s b w) = Threw TRACKING_ID_REQUIRED)) \<and>
         (\<forall>r. fst (addRequiredParameters p s b w) = Returned r \<longrightarrow>
            (k = ''t'' \<longrightarrow> getProp r ''t'' (snd (addRequiredParameters p s b w)) = JStr ''event'') \<and>
            (k = ''el'' \<longrightarrow> getProp r ''el'' (snd (addRequiredParameters p s b w)) = JStr '''') \<and>
            (k = ''ds'' \<longrightarrow> getProp r ''ds'' (snd (addRequiredParameters p s b w)) = JStr ''urlFetch''))"
proof -
  define o0 where "o0 = json_roundtrip (heap w ! p)"
  define w' where "w' = deleteProp p k w"
  have g: "obj_get o0 j = getProp p j w" for j
    unfolding o0_def by (rule getProp_clone[OF assms(1)])
  have fk: "\<not> truthy (obj_get o0 k)" using assms(2) by (simp add: g)
  have ap: "k = ''tid'' \<or> k = ''t'' \<or>
         (k = ''el'' \<and> js_or (obj_get o0 ''t'') (JStr ''event'') = JStr ''event'') \<or>
         (k = ''ds'' \<and> b)"
    using assms(3) by (simp add: g)
  have p: "p < length (heap w)" using assms(1) by (simp add: valid_ref_def)
  have o0': "json_roundtrip (heap w' ! p) = obj_delete k o0"
    by (simp add: w'_def deleteProp_simps(2)[OF p] json_roundtrip_obj_delete o0_def)
  have tid': "truthy (obj_get (obj_delete k o0) ''tid'') = truthy (obj_get o0 ''tid'')"
    using fk by (cases "k = ''tid''") (simp_all add: obj_get_obj_delete)
  have tr': "ANALYTICS_TRACKING_ID w' = ANALYTICS_TRACKING_ID w"
    by (simp add: w'_def deleteProp_simps)
  have len': "length (heap w') = length (heap w)"
    by (simp add: w'_def deleteProp_simps)
  have fst_eq: "fst (addRequiredParameters p s b w) = fst (addRequiredParameters p s b w')"
    by (simp add: addRequiredParameters_fst o0' tid' tr' len' o0_def[symmetric])
  show ?thesis
  proof (cases "truthy (obj_get o0 ''tid'') \<or> truthy (ANALYTICS_TRACKING_ID w)")
    case False
    then have n1: "\<not> truthy (obj_get (json_roundtrip (heap w ! p)) ''tid'')"
      and n2: "\<not> truthy (ANALYTICS_TRACKING_ID w)"
      by (simp_all add: o0_def)
    have n1': "\<not> truthy (obj_get (json_roundtrip (heap w' ! p)) ''tid'')"
      and n2': "\<not> truthy (ANALYTICS_TRACKING_ID w')"
      using False by (simp_all add: o0' tid' tr')
    show ?thesis
      unfolding w'_def[symmetric]
      unfolding addRequiredParameters_Threw[OF n1 n2] addRequiredParameters_Threw[OF n1' n2']
      using n2 by (simp add: w'_def deleteProp_def)
  next
    case True
    then have c: "truthy (obj_get (json_roundtrip (heap w ! p)) ''tid'') \<or> truthy (ANALYTICS_TRACKING_ID w)"
      by (simp add: o0_def)
    have c': "truthy (obj_get (json_roundtrip (heap w' ! p)) ''tid'') \<or> truthy (ANALYTICS_TRACKING_ID w')"
      using True by (simp add: o0' tid' tr')
    have A: "snd (addRequiredParameters p s b w) =
       (snd (getAnalyticsClientId s w))
         \<lparr>heap := heap w @ [fill_required (ANALYTICS_TRACKING_ID w) (fst (getAnalyticsClientId s w))
                              (random_src w (random_calls w)) b o0],
          random_calls := Suc (random_calls w)\<rparr>"
      by (simp add: addRequiredParameters_Returned[OF c] o0_def)
    have B: "snd (addRequiredParameters p s b w') =
       (snd (getAnalyticsClientId s w'))
         \<lparr>heap := heap w' @ [fill_required (ANALYTICS_TRACKING_ID w) (fst (getAnalyticsClientId s w))
                              (random_src w (random_calls w)) b (obj_delete k o0)],
          random_calls := Suc (random_calls w)\<rparr>"
      unfolding addRequiredParameters_Returned[OF c'] o0'
      by (simp add: w'_def deleteProp_simps)
    have f: "fst (addRequiredParameters p s b w) = Returned (length (heap w))"
      by (simp add: addRequiredParameters_Returned[OF c])
    have getA: "getProp (length (heap w)) j (snd (addRequiredParameters p s b w)) =
        obj_get (fill_required (ANALYTICS_TRACKING_ID w) (fst (getAnalyticsClientId s w))
                              (random_src w (random_calls w)) b o0) j" for j
      unfolding A by (simp add: getProp_def)
    have getB: "getProp (length (heap w)) j (snd (addRequiredParameters p s b w')) =
        obj_get (fill_required (ANALYTICS_TRACKING_ID w) (fst (getAnalyticsClientId s w))
                              (random_src w (random_calls w)) b (obj_delete k o0)) j" for j
      unfolding B using len' by (simp add: getProp_def nth_append)
    have same: "getProp (length (heap w)) j (snd (addRequiredParameters p s b w)) =
                getProp (length (heap w)) j (snd (addRequiredParameters p s b w'))" for j
      unfolding getA getB by (rule fill_required_delete_falsy[OF fk ap, symmetric])
    have side: "trace (snd (addRequiredParameters p s b w)) = trace (snd (addRequiredParameters p s b w'))"
      "stores (snd (addRequiredParameters p s b w)) = stores (snd (addRequiredParameters p s b w'))"
      unfolding A B by (simp_all add: w'_def deleteProp_getAnalyticsClientId)
    have tidv: "k = ''tid'' \<Longrightarrow> truthy (ANALYTICS_TRACKING_ID w) \<and>
        getProp (length (heap w)) ''tid'' (snd (addRequiredParameters p s b w)) = ANALYTICS_TRACKING_ID w"
      using fk True unfolding getA fill_tid by auto
    have tv: "k = ''t'' \<Longrightarrow> getProp (length (heap w)) ''t'' (snd (addRequiredParameters p s b w)) = JStr ''event''"
      using fk unfolding getA fill_t by (simp add: js_or_def)
    have elv: "k = ''el'' \<Longrightarrow> getProp (length (heap w)) ''el'' (snd (addRequiredParameters p s b w)) = JStr ''''"
      using fk ap unfolding getA fill_el by auto
    have dsv: "k = ''ds'' \<Longrightarrow> getProp (length (heap w)) ''ds'' (snd (addRequiredParameters p s b w)) = JStr ''urlFetch''"
      using fk ap unfolding getA fill_ds by (auto simp: js_or_def)
    show ?thesis
      unfolding w'_def[symmetric]
      using fst_eq side same tidv tv elv dsv f by auto
  qed
qed

text \<open>For \<^verbatim>\<open>{el: 0}\<close>, an event hit: \<^verbatim>\<open>el\<close> becomes the empty string, as for \<^verbatim>\<open>{}\<close>.\<close>

theorem falsy_value_treated_as_missing_witness:
  "valid_ref 0 (w_fresh\<lparr>heap := [[(''el'', JNum 0)]]\<rparr>) \<and>
   getProp 0 ''el'' (w_fresh\<lparr>heap := [[(''el'', JNum 0)]]\<rparr>) = JNum 0 \<and>
   heap (deleteProp 0 ''el'' (w_fresh\<lparr>heap := [[(''el'', JNum 0)]]\<rparr>)) = [[]] \<and>
   fst (addRequiredParameters 0 None False (w_fresh\<lparr>heap := [[(''el'', JNum 0)]]\<rparr>)) = Returned 1 \<and>
   getProp 1 ''el'' (snd (addRequiredParameters 0 None False (w_fresh\<lparr>heap := [[(''el'', JNum 0)]]\<rparr>)))
     = JStr '''' \<and>
   getProp 1 ''el'' (snd (addRequiredParameters 0 None False
                            (deleteProp 0 ''el'' (w_fresh\<lparr>heap := [[(''el'', JNum 0)]]\<rparr>))))
     = JStr ''''"
proof -
  let ?w = "w_fresh\<lparr>heap := [[(''el'', JNum 0)]]\<rparr>"
  have v: "valid_ref 0 ?w"
    by (simp add: valid_ref_def obj_keys_def)
  have e: "getProp 0 ''el'' ?w = JNum 0" and t: "getProp 0 ''t'' ?w = JUndefined"
    by (simp_all add: getProp_def)
  have h2: "\<not> truthy (getProp 0 ''el'' ?w)"
    by (simp add: e)
  have h3: "''el'' = ''tid'' \<or> ''el'' = ''t'' \<or>
         (''el'' = ''el'' \<and> js_or (getProp 0 ''t'' ?w) (JStr ''event'') = JStr ''event'') \<or>
         (''el'' = ''ds'' \<and> False)"
    by (simp add: t js_or_def)
  have d: "heap (deleteProp 0 ''el'' ?w) = [[]]"
    by (simp add: deleteProp_def obj_delete_def)
  have f: "fst (addRequiredParameters 0 None False ?w) = Returned 1"
    by (simp add: addRequiredParameters_fst w_fresh_def json_roundtrip_def)
  note c = falsy_value_treated_as_missing[OF v h2 h3, of None]
  have same: "getProp 1 ''el'' (snd (addRequiredParameters 0 None False ?w)) =
              getProp 1 ''el'' (snd (addRequiredParameters 0 None False (deleteProp 0 ''el'' ?w)))"
    using c[THEN conjunct2, THEN conjunct2, THEN conjunct2, THEN conjunct1] f by simp
  have el: "getProp 1 ''el'' (snd (addRequiredParameters 0 None False ?w)) = JStr ''''"
    using c[THEN conjunct2, THEN conjunct2, THEN conjunct2, THEN conjunct2, THEN conjunct2] f by simp
  show ?thesis
    using v e d f el same by simp
qed

end
